theory Spec2Isabelle
  imports Main "HOL-Library.Word"
begin

unbundle bit_operations_syntax

text \<open>
  A shallow embedding of the process utilities of \<^verbatim>\<open>clearml/utilities/process/mp.py\<close>
  (the write queue \<open>SafeQueue\<close>, the lazily created lock \<open>SingletonLock\<close> and the
  watcher fleet \<open>BackgroundMonitor\<close>) and of \<^verbatim>\<open>trains/utilities/seed.py\<close>
  (\<open>make_deterministic\<close>). Class attributes and objects are explicit state, passed in and
  returned; what the operating system and the libraries answer is an environment given as
  an argument; exceptions and calls that do not return are values. The definitions come
  first, one section per class, then the proofs.
\<close>

section \<open>Python values shared by the models\<close>

text \<open>
  Exceptions are values. The constructors are the exception classes the two modules can
  meet; \<open>is_Exception\<close> is what \<^verbatim>\<open>except Exception\<close> catches (everything but the
  \<^verbatim>\<open>BaseException\<close>-only classes) and \<open>is_psutil_Error\<close> what
  \<^verbatim>\<open>except psutil.Error\<close> catches.
\<close>

datatype exn =
    TypeError
  | ValueError
  | AttributeError
  | AssertionError
  | RuntimeError
  | NoSuchProcess
  | ZombieProcess
  | AccessDenied
  | KeyboardInterrupt
  | SystemExit

fun is_Exception :: "exn \<Rightarrow> bool" where
  "is_Exception KeyboardInterrupt = False"
| "is_Exception SystemExit = False"
| "is_Exception _ = True"

fun is_psutil_Error :: "exn \<Rightarrow> bool" where
  "is_psutil_Error NoSuchProcess = True"
| "is_psutil_Error ZombieProcess = True"
| "is_psutil_Error AccessDenied = True"
| "is_psutil_Error _ = False"

type_synonym pid = nat

section \<open>\<^verbatim>\<open>trains/utilities/seed.py\<close>: \<open>make_deterministic\<close>\<close>

text \<open>
  The function talks to five libraries, each of which may be absent and each of whose
  calls may raise. What the interpreter finds is the environment \<open>seed_env\<close>:
  \<^item> \<open>np_present\<close>, \<open>cv2_present\<close>: the module-level imports succeeded
    (\<^verbatim>\<open>np is not None\<close>, \<^verbatim>\<open>cv2 is not None\<close>);
  \<^item> \<open>torch_present\<close>, \<open>tf_present\<close>: \<^verbatim>\<open>sys.modules.get(...)\<close> is not \<^verbatim>\<open>None\<close>;
  \<^item> \<open>cudnn_set_deterministic\<close>, \<open>cudnn_set_benchmark\<close>: the exception the assignment
    of line 33, of line 34, raises, if any;
  \<^item> \<open>tf_context\<close>: the outcome of the imports of lines 59 and 60: the exception they
    raise, or the value of \<^verbatim>\<open>_context is None\<close>;
  \<^item> one function per seeding call, from the integer it is given to the exception it
    raises, if any.
  The result is the list of library calls made, in order, each with the argument it got,
  and the exception that leaves the function, if any. Python integers are unbounded:
  \<open>int\<close>.
\<close>

record seed_env =
  np_present :: bool
  cv2_present :: bool
  torch_present :: bool
  tf_present :: bool
  cudnn_set_deterministic :: "exn option"
  cudnn_set_benchmark :: "exn option"
  tf_context :: "exn + bool"
  np_random_seed :: "int \<Rightarrow> exn option"
  cv2_setRNGSeed :: "int \<Rightarrow> exn option"
  torch_manual_seed :: "int \<Rightarrow> exn option"
  torch_cuda_manual_seed :: "int \<Rightarrow> exn option"
  tf_set_random_seed :: "int \<Rightarrow> exn option"
  tf_random_set_random_seed :: "int \<Rightarrow> exn option"

datatype seed_call =
    CudnnDeterministic
  | CudnnBenchmark
  | RandomSeed int
  | NpRandomSeed int
  | Cv2SetRNGSeed int
  | TorchManualSeed int
  | TorchCudaManualSeed int
  | TfSetRandomSeed int
  | TfRandomSetRandomSeed int

text \<open>The integer a seeding call was given (\<open>None\<close> for the cudnn switches).\<close>

fun seed_arg :: "seed_call \<Rightarrow> int option" where
  "seed_arg CudnnDeterministic = None"
| "seed_arg CudnnBenchmark = None"
| "seed_arg (RandomSeed s) = Some s"
| "seed_arg (NpRandomSeed s) = Some s"
| "seed_arg (Cv2SetRNGSeed s) = Some s"
| "seed_arg (TorchManualSeed s) = Some s"
| "seed_arg (TorchCudaManualSeed s) = Some s"
| "seed_arg (TfSetRandomSeed s) = Some s"
| "seed_arg (TfRandomSetRandomSeed s) = Some s"

text \<open>
  A stretch of the function: the calls it made and the exception that leaves it, if any.
  \<open>and_then\<close> runs one stretch after another; \<open>swallow\<close> is
  \<^verbatim>\<open>except Exception: pass\<close>.
\<close>

type_synonym steps = "seed_call list \<times> exn option"

definition and_then :: "steps \<Rightarrow> steps \<Rightarrow> steps" where
  "and_then a b = (case snd a of Some e \<Rightarrow> a | None \<Rightarrow> (fst a @ fst b, snd b))"

definition swallow :: "exn option \<Rightarrow> exn option" where
  "swallow r = (case r of None \<Rightarrow> None | Some e \<Rightarrow> if is_Exception e then None else Some e)"

text \<open>Line 27: \<^verbatim>\<open>seed = int(seed) & 0xFFFFFFFF\<close>, for an integer argument.\<close>

definition reduce_seed :: "int \<Rightarrow> int" where
  "reduce_seed seed = seed AND 0xFFFFFFFF"

text \<open>
  Lines 31 to 36: the two cudnn assignments in one \<^verbatim>\<open>try\<close>. With torch absent the
  first one fails on \<^verbatim>\<open>None\<close> with an \<^verbatim>\<open>AttributeError\<close>, which is swallowed.
\<close>

definition cudnn_part :: "seed_env \<Rightarrow> bool \<Rightarrow> steps" where
  "cudnn_part env cudnn_deterministic =
     (if cudnn_deterministic \<and> torch_present env
      then (case cudnn_set_deterministic env of
              Some e \<Rightarrow> ([CudnnDeterministic], swallow (Some e))
            | None \<Rightarrow> ([CudnnDeterministic, CudnnBenchmark], swallow (cudnn_set_benchmark env)))
      else ([], None))"

text \<open>Lines 40 and 41: \<^verbatim>\<open>np.random.seed(seed)\<close>, outside any \<^verbatim>\<open>try\<close>.\<close>

definition np_part :: "seed_env \<Rightarrow> int \<Rightarrow> steps" where
  "np_part env seed =
     (if np_present env then ([NpRandomSeed seed], np_random_seed env seed) else ([], None))"

text \<open>Lines 43 to 47.\<close>

definition cv2_part :: "seed_env \<Rightarrow> int \<Rightarrow> steps" where
  "cv2_part env seed =
     (if cv2_present env
      then ([Cv2SetRNGSeed seed], swallow (cv2_setRNGSeed env seed))
      else ([], None))"

text \<open>
  Lines 49 to 54: \<^verbatim>\<open>torch.manual_seed(seed)\<close> then \<^verbatim>\<open>torch.cuda.manual_seed(seed)\<close>
  in one \<^verbatim>\<open>try\<close>: the second call is skipped when the first raises.
\<close>

definition torch_part :: "seed_env \<Rightarrow> int \<Rightarrow> steps" where
  "torch_part env seed =
     (if torch_present env
      then (case torch_manual_seed env seed of
              Some e \<Rightarrow> ([TorchManualSeed seed], swallow (Some e))
            | None \<Rightarrow>
                ([TorchManualSeed seed, TorchCudaManualSeed seed],
                 swallow (torch_cuda_manual_seed env seed)))
      else ([], None))"

text \<open>
  Lines 56 to 73: \<open>eager_mode_bypass\<close> is \<^verbatim>\<open>_context is None\<close>, or \<open>False\<close> when
  the import raises an \<^verbatim>\<open>Exception\<close>; unless it holds, both tensorflow calls are made,
  each in a \<^verbatim>\<open>try\<close> of its own.
\<close>

definition tf_seed :: "seed_env \<Rightarrow> int \<Rightarrow> steps" where
  "tf_seed env seed =
     and_then ([TfSetRandomSeed seed], swallow (tf_set_random_seed env seed))
       ([TfRandomSetRandomSeed seed], swallow (tf_random_set_random_seed env seed))"

definition tf_part :: "seed_env \<Rightarrow> int \<Rightarrow> steps" where
  "tf_part env seed =
     (if tf_present env
      then (case tf_context env of
              Inl e \<Rightarrow> (if is_Exception e then tf_seed env seed else ([], Some e))
            | Inr eager_mode_bypass \<Rightarrow>
                (if \<not> eager_mode_bypass then tf_seed env seed else ([], None)))
      else ([], None))"

definition make_deterministic :: "seed_env \<Rightarrow> int \<Rightarrow> bool \<Rightarrow> steps" where
  "make_deterministic env seed0 cudnn_deterministic =
     (let seed = reduce_seed seed0
      in and_then (cudnn_part env cudnn_deterministic)
        (and_then ([RandomSeed seed], None)
        (and_then (np_part env seed)
        (and_then (cv2_part env seed)
        (and_then (torch_part env seed)
                  (tf_part env seed))))))"

text \<open>A call has the right argument: none, or the given one.\<close>

definition seeded_with :: "int \<Rightarrow> seed_call \<Rightarrow> bool" where
  "seeded_with r c = (seed_arg c = None \<or> seed_arg c = Some r)"

text \<open>
  An interpreter with every library installed; numpy refuses a seed outside
  \<open>[0, 2 ^ 32)\<close> and the old tensorflow entry point is gone.
\<close>

definition all_libraries :: seed_env where
  "all_libraries = \<lparr> np_present = True, cv2_present = True, torch_present = True,
     tf_present = True, cudnn_set_deterministic = None, cudnn_set_benchmark = None,
     tf_context = Inr False,
     np_random_seed = (\<lambda>s. if 0 \<le> s \<and> s < 2 ^ 32 then None else Some ValueError),
     cv2_setRNGSeed = (\<lambda>_. None), torch_manual_seed = (\<lambda>_. None),
     torch_cuda_manual_seed = (\<lambda>_. None), tf_set_random_seed = (\<lambda>_. Some AttributeError),
     tf_random_set_random_seed = (\<lambda>_. None) \<rparr>"

section \<open>\<^verbatim>\<open>clearml/utilities/process/mp.py\<close>: \<open>BackgroundMonitor\<close>\<close>

subsection \<open>Objects\<close>

text \<open>
  An event (\<^verbatim>\<open>threading.Event\<close> or \<^verbatim>\<open>multiprocessing.Event\<close>) is its kind and its
  flag. A watcher is a \<open>BackgroundMonitor\<close> instance: the fields \<^verbatim>\<open>_event\<close> (the stop
  signal), \<^verbatim>\<open>_done_ev\<close>, \<^verbatim>\<open>_start_ev\<close>, \<^verbatim>\<open>_task_pid\<close>, \<^verbatim>\<open>_thread\<close>,
  \<^verbatim>\<open>_wait_timeout\<close> and \<^verbatim>\<open>_subprocess\<close> are written here without the leading
  underscore and with the prefix \<open>w_\<close>. The field \<^verbatim>\<open>_thread\<close> holds \<^verbatim>\<open>None\<close>, the
  placeholder \<^verbatim>\<open>True\<close> that \<open>start()\<close> stores, or a \<^verbatim>\<open>Thread\<close> object.
\<close>

datatype ev_kind = TrEvent | PrEvent

record event =
  kind :: ev_kind
  is_set :: bool

definition new_event :: "ev_kind \<Rightarrow> event" where
  "new_event k = \<lparr> kind = k, is_set = False \<rparr>"

definition ev_set :: "event \<Rightarrow> event" where
  "ev_set e = e\<lparr> is_set := True \<rparr>"

definition ev_clear :: "event \<Rightarrow> event" where
  "ev_clear e = e\<lparr> is_set := False \<rparr>"

datatype thread_field = NoThread | Placeholder | Thread nat

text \<open>Python truth of the field (\<^verbatim>\<open>not self._thread\<close>) and \<^verbatim>\<open>isinstance(self._thread, Thread)\<close>.\<close>

fun truthy :: "thread_field \<Rightarrow> bool" where
  "truthy NoThread = False"
| "truthy Placeholder = True"
| "truthy (Thread t) = True"

fun isinstance_Thread :: "thread_field \<Rightarrow> bool" where
  "isinstance_Thread (Thread t) = True"
| "isinstance_Thread _ = False"

record watcher =
  w_event :: event
  w_done_ev :: event
  w_start_ev :: event
  w_task_pid :: pid
  w_thread :: thread_field
  w_wait_timeout :: nat
  w_subprocess :: "bool option"

text \<open>
  A started \<^verbatim>\<open>multiprocessing.Process\<close>: its pid and its daemon flag. The class-level
  state of \<open>BackgroundMonitor\<close> is \<open>main_process\<close>, \<open>parent_pid\<close>,
  \<open>sub_process_started\<close> and \<open>instances\<close>; watchers are objects compared by identity,
  so \<open>instances\<close> lists their addresses and \<open>heap\<close> maps an address to the object.
  \<open>forked\<close> lists the worker processes \<^verbatim>\<open>Process.start()\<close> has launched and
  \<open>next_thread\<close> is the identity the next \<^verbatim>\<open>Thread\<close> object gets.
\<close>

record process =
  proc_pid :: pid
  proc_daemon :: bool

record bm_state =
  main_process :: "process option"
  parent_pid :: "pid option"
  sub_process_started :: "event option"
  instances :: "nat list"
  heap :: "nat \<Rightarrow> watcher"
  forked :: "process list"
  next_thread :: nat

text \<open>
  What the operating system answers, as an environment:
  \<^item> \<open>getpid\<close>: \<^verbatim>\<open>os.getpid()\<close>; \<open>new_pid\<close>: the pid the next forked child gets;
  \<^item> \<open>child_sets_started\<close>: the forked child reaches
    \<^verbatim>\<open>cls._sub_process_started.set()\<close> in \<^verbatim>\<open>_background_process_start\<close>;
  \<^item> \<open>proc_is_alive\<close>: \<^verbatim>\<open>Process.is_alive()\<close>, which may raise (it asserts that the
    caller is the parent and that the handle is open);
  \<^item> \<open>thread_is_alive\<close>: \<^verbatim>\<open>Thread.is_alive()\<close>;
  \<^item> \<open>psutil_Process\<close>: the exception the constructor \<^verbatim>\<open>psutil.Process(pid)\<close> raises,
    if any; \<open>psutil_status\<close>: \<^verbatim>\<open>.status()\<close> of the process with that pid;
    \<open>psutil_children\<close>: the pids of \<^verbatim>\<open>.children(recursive=True)\<close>, in order.
\<close>

datatype proc_status =
    STATUS_RUNNING | STATUS_SLEEPING | STATUS_DISK_SLEEP | STATUS_STOPPED
  | STATUS_ZOMBIE | STATUS_DEAD | STATUS_IDLE

record os_env =
  getpid :: pid
  new_pid :: pid
  child_sets_started :: bool
  proc_is_alive :: "process \<Rightarrow> exn + bool"
  thread_is_alive :: "nat \<Rightarrow> bool"
  psutil_Process :: "pid \<Rightarrow> exn option"
  psutil_status :: "pid \<Rightarrow> exn + proc_status"
  psutil_children :: "pid \<Rightarrow> exn + pid list"

subsection \<open>Liveness of the shared subprocess (lines 239 to 263)\<close>

text \<open>
  \<open>is_subprocess_alive\<close> returns \<^verbatim>\<open>True\<close>, \<^verbatim>\<open>False\<close> or (by the bare
  \<^verbatim>\<open>return\<close> of line 254) \<^verbatim>\<open>None\<close>, or raises: the result type is
  \<open>exn + bool option\<close>, with \<open>Inr None\<close> for \<^verbatim>\<open>None\<close>.

  \<open>direct_check\<close> is the expression of lines 246 and 247; \<^verbatim>\<open>and\<close> does not evaluate
  its right operand when the left one is false.
\<close>

definition direct_check :: "os_env \<Rightarrow> process \<Rightarrow> exn + bool" where
  "direct_check env p =
     (case proc_is_alive env p of
        Inl e \<Rightarrow> Inl e
      | Inr False \<Rightarrow> Inr False
      | Inr True \<Rightarrow>
          (case psutil_Process env (proc_pid p) of
             Some e \<Rightarrow> Inl e
           | None \<Rightarrow>
               (case psutil_status env (proc_pid p) of
                  Inl e \<Rightarrow> Inl e
                | Inr s \<Rightarrow> Inr (s \<noteq> STATUS_ZOMBIE))))"

text \<open>The loop of lines 255 to 259 over the descendants of the parent.\<close>

fun scan_children :: "os_env \<Rightarrow> pid \<Rightarrow> pid list \<Rightarrow> exn + bool option" where
  "scan_children env current_pid [] = Inr (Some False)"
| "scan_children env current_pid (child # rest) =
     (if child = current_pid
      then (case psutil_status env child of
              Inl e \<Rightarrow> Inl e
            | Inr s \<Rightarrow> Inr (Some (s \<noteq> STATUS_ZOMBIE)))
      else scan_children env current_pid rest)"

text \<open>
  The handler of lines 248 to 259. \<open>recorded_parent\<close> is the process
  \<^verbatim>\<open>psutil.Process(cls._parent_pid)\<close> looks for; \<^verbatim>\<open>psutil.Process(None)\<close> is the calling
  process.
  Only a \<^verbatim>\<open>psutil.Error\<close> of the constructor is caught; whatever else is raised in
  the handler leaves the function.
\<close>

definition recorded_parent :: "os_env \<Rightarrow> bm_state \<Rightarrow> pid" where
  "recorded_parent env st = (case parent_pid st of None \<Rightarrow> getpid env | Some q \<Rightarrow> q)"

definition fallback_scan :: "os_env \<Rightarrow> bm_state \<Rightarrow> process \<Rightarrow> exn + bool option" where
  "fallback_scan env st p =
     (let current_pid = proc_pid p;
          parent = recorded_parent env st
      in case psutil_Process env parent of
           Some e \<Rightarrow> (if is_psutil_Error e then Inr None else Inl e)
         | None \<Rightarrow>
             (case psutil_children env parent of
                Inl e \<Rightarrow> Inl e
              | Inr children \<Rightarrow> scan_children env current_pid children))"

definition is_subprocess_alive :: "os_env \<Rightarrow> bm_state \<Rightarrow> exn + bool option" where
  "is_subprocess_alive env st =
     (case main_process st of
        None \<Rightarrow> Inr (Some False)
      | Some p \<Rightarrow>
          (case direct_check env p of
             Inr b \<Rightarrow> Inr (Some b)
           | Inl e \<Rightarrow> (if is_Exception e then fallback_scan env st p else Inl e)))"

definition is_subprocess :: "bm_state \<Rightarrow> bool" where
  "is_subprocess st = (main_process st \<noteq> None)"

subsection \<open>Watcher methods (lines 98 to 161 and 233 to 237)\<close>

text \<open>\<open>__init__\<close>, for the watcher a process with pid \<open>p\<close> creates.\<close>

definition BackgroundMonitor_init :: "pid \<Rightarrow> nat \<Rightarrow> watcher" where
  "BackgroundMonitor_init p wait_period =
     \<lparr> w_event = new_event TrEvent, w_done_ev = new_event TrEvent,
       w_start_ev = new_event TrEvent, w_task_pid = p, w_thread = NoThread,
       w_wait_timeout = wait_period, w_subprocess = None \<rparr>"

definition upd :: "nat \<Rightarrow> (watcher \<Rightarrow> watcher) \<Rightarrow> bm_state \<Rightarrow> bm_state" where
  "upd self f st = st\<lparr> heap := (heap st)(self := f (heap st self)) \<rparr>"

definition start :: "nat \<Rightarrow> bm_state \<Rightarrow> bm_state" where
  "start self st =
     (let st1 = (if \<not> truthy (w_thread (heap st self))
                 then upd self (\<lambda>w. w\<lparr> w_thread := Placeholder \<rparr>) st else st);
          st2 = upd self (\<lambda>w. w\<lparr> w_event := ev_clear (w_event w) \<rparr>) st1;
          st3 = upd self (\<lambda>w. w\<lparr> w_done_ev := ev_clear (w_done_ev w) \<rparr>) st2
      in if self \<notin> set (instances st3)
         then st3\<lparr> instances := instances st3 @ [self] \<rparr>
         else st3)"

text \<open>
  \<open>start_thread\<close> is the method \<^verbatim>\<open>_start\<close>: a new daemon \<^verbatim>\<open>Thread\<close> whose target is
  \<^verbatim>\<open>_daemon\<close> is created and started.
\<close>

definition start_thread :: "nat \<Rightarrow> bm_state \<Rightarrow> bm_state" where
  "start_thread self st =
     (upd self (\<lambda>w. w\<lparr> w_thread := Thread (next_thread st) \<rparr>) st)
       \<lparr> next_thread := Suc (next_thread st) \<rparr>"

definition set_subprocess_mode :: "nat \<Rightarrow> bm_state \<Rightarrow> bm_state" where
  "set_subprocess_mode self st =
     upd self (\<lambda>w. w\<lparr> w_subprocess := Some True, w_done_ev := new_event PrEvent,
                       w_start_ev := new_event PrEvent, w_event := new_event PrEvent \<rparr>) st"

text \<open>
  \<open>stop\<close> (lines 125 to 137). The condition of line 129 is the truth value of what
  \<open>is_subprocess_alive\<close> returns, so \<^verbatim>\<open>None\<close> counts as false; an exception of
  \<open>is_subprocess_alive\<close> leaves \<open>stop\<close>. \<^verbatim>\<open>list.remove\<close> deletes the first occurrence
  and raises \<^verbatim>\<open>ValueError\<close>, which line 135 swallows, when there is none:
  \<open>remove1\<close>.
\<close>

definition stop :: "os_env \<Rightarrow> nat \<Rightarrow> bm_state \<Rightarrow> exn + bm_state" where
  "stop env self st =
     (if \<not> truthy (w_thread (heap st self)) then Inr st
      else case is_subprocess_alive env st of
             Inl e \<Rightarrow> Inl e
           | Inr alive \<Rightarrow>
               (let st1 = (if alive = Some True
                           then upd self (\<lambda>w. w\<lparr> w_event := ev_set (w_event w) \<rparr>) st
                           else st)
                in if isinstance_Thread (w_thread (heap st1 self))
                   then Inr (upd self (\<lambda>w. w\<lparr> w_thread := NoThread \<rparr>)
                               (st1\<lparr> instances := remove1 self (instances st1) \<rparr>))
                   else Inr st1))"

text \<open>
  \<open>is_alive\<close> (lines 233 to 237). \<^verbatim>\<open>a and b and c\<close> is the first operand that is
  false, so a \<^verbatim>\<open>None\<close> of \<open>is_subprocess_alive\<close> is returned as it is.
\<close>

definition is_alive :: "os_env \<Rightarrow> nat \<Rightarrow> bm_state \<Rightarrow> exn + bool option" where
  "is_alive env self st =
     (if is_subprocess st
      then (case is_subprocess_alive env st of
              Inl e \<Rightarrow> Inl e
            | Inr alive \<Rightarrow>
                (if alive = Some True
                 then (if is_set (w_start_ev (heap st self))
                       then Inr (Some (\<not> is_set (w_done_ev (heap st self))))
                       else Inr (Some False))
                 else Inr alive))
      else (case w_thread (heap st self) of
              Thread t \<Rightarrow> Inr (Some (thread_is_alive env t))
            | _ \<Rightarrow> Inr (Some False)))"

subsection \<open>The poll loop (lines 139 to 151)\<close>

text \<open>
  The loop runs in the watcher's thread while other threads or processes may set the stop
  signal. What they do is the schedule \<open>stop_by\<close>: \<open>stop_by k t\<close> holds when the flag is
  set from outside within the timeout \<open>t\<close> of the \<open>k\<close>-th wait (counted from 0).
  \<^verbatim>\<open>self._event.wait(self._wait_timeout)\<close> returns true at once when the flag is already
  set, and otherwise true exactly when it is set before the timeout: \<open>stop_seen\<close>.

  To speak about order, the run keeps a log of what the thread did: \<open>Wait t\<close> for a wait
  on the stop signal with timeout \<open>t\<close>, \<open>Tick\<close> for a call of \<^verbatim>\<open>_daemon_step\<close> (the
  tick of the base class is \<^verbatim>\<open>pass\<close>: it only shows in the log), \<open>PostExecution\<close>
  for the call of \<open>post_execution\<close>.

  The loop is \<^verbatim>\<open>while True\<close>: it does not return while the signal is never seen, so
  \<open>daemon\<close> is a partial function and \<open>None\<close> stands for a loop that runs forever.
  \<open>daemon_main\<close> is the method \<^verbatim>\<open>_daemon\<close>, the target of the watcher's thread.
\<close>

datatype obs = StartedSet | Wait nat | Tick | StopObserved | PostExecution | DoneSet

type_synonym run = "watcher \<times> obs list"

definition stop_seen :: "(nat \<Rightarrow> nat \<Rightarrow> bool) \<Rightarrow> watcher \<Rightarrow> nat \<Rightarrow> bool" where
  "stop_seen stop_by w k = (is_set (w_event w) \<or> stop_by k (w_wait_timeout w))"

definition daemon_step :: "run \<Rightarrow> run" where
  "daemon_step r = (fst r, snd r @ [Tick])"

partial_function (option) daemon :: "(nat \<Rightarrow> nat \<Rightarrow> bool) \<Rightarrow> nat \<Rightarrow> run \<Rightarrow> run option" where
  "daemon stop_by k r =
     (if stop_seen stop_by (fst r) k
      then Some ((fst r)\<lparr> w_event := ev_set (w_event (fst r)) \<rparr>,
                 snd r @ [Wait (w_wait_timeout (fst r)), StopObserved])
      else daemon stop_by (Suc k)
             (daemon_step (fst r, snd r @ [Wait (w_wait_timeout (fst r))])))"

definition post_execution :: "run \<Rightarrow> run" where
  "post_execution r = ((fst r)\<lparr> w_done_ev := ev_set (w_done_ev (fst r)) \<rparr>, snd r @ [DoneSet])"

definition daemon_main :: "(nat \<Rightarrow> nat \<Rightarrow> bool) \<Rightarrow> watcher \<Rightarrow> run option" where
  "daemon_main stop_by w =
     (case daemon stop_by 0 (w\<lparr> w_start_ev := ev_set (w_start_ev w) \<rparr>, [StartedSet]) of
        None \<Rightarrow> None
      | Some r \<Rightarrow> Some (post_execution (fst r, snd r @ [PostExecution])))"

subsection \<open>Launching the fleet (lines 163 to 180)\<close>

text \<open>
  \<open>start_all\<close> returns, or blocks in \<^verbatim>\<open>cls._sub_process_started.wait()\<close> for as long as
  the child does not set the signal; the state reached is kept in both cases.
  \<^verbatim>\<open>Process.start()\<close> is taken to succeed. A \<^verbatim>\<open>Process\<close> object is always true in a
  condition, so line 168 asks whether \<open>main_process\<close> is \<^verbatim>\<open>None\<close>.
\<close>

datatype outcome = Returned | Blocked

definition start_all :: "os_env \<Rightarrow> bool \<Rightarrow> bool \<Rightarrow> bm_state \<Rightarrow> bm_state \<times> outcome" where
  "start_all env execute_in_subprocess wait_for_subprocess st =
     (if \<not> execute_in_subprocess
      then (fold start_thread (instances st) st, Returned)
      else if main_process st = None
      then (let st1 = st\<lparr> parent_pid := Some (getpid env),
                           sub_process_started := Some (ev_clear (new_event PrEvent)) \<rparr>;
                st2 = fold set_subprocess_mode (instances st1) st1;
                p = \<lparr> proc_pid = new_pid env, proc_daemon = True \<rparr>;
                st3 = st2\<lparr> main_process := Some p, forked := forked st2 @ [p] \<rparr>
            in if wait_for_subprocess
               then (if child_sets_started env
                     then (st3\<lparr> sub_process_started := Some (ev_set (new_event PrEvent)) \<rparr>,
                           Returned)
                     else (st3, Blocked))
               else (st3, Returned))
      else (st, Returned))"

text \<open>
  A sequence of \<open>start_all(True, w)\<close> calls, each with the environment it runs in; a call
  that blocks is the last one the caller makes.
\<close>

fun start_all_calls :: "(os_env \<times> bool) list \<Rightarrow> bm_state \<Rightarrow> bm_state \<times> outcome" where
  "start_all_calls [] st = (st, Returned)"
| "start_all_calls (c # cs) st =
     (case start_all (fst c) True (snd c) st of
        (st', Returned) \<Rightarrow> start_all_calls cs st'
      | (st', Blocked) \<Rightarrow> (st', Blocked))"

text \<open>
  Any sequence of calls of \<open>start\<close>, \<open>stop\<close> and \<open>start_all\<close>, each with the environment
  it runs in. An exception of \<open>stop\<close> is raised before \<open>stop\<close> has changed anything, and
  the caller goes on; a \<open>start_all\<close> that blocks is the last call the caller makes.
\<close>

datatype bm_call = Start nat | Stop nat | StartAll bool bool

fun bm_step :: "os_env \<Rightarrow> bm_call \<Rightarrow> bm_state \<Rightarrow> bm_state \<times> outcome" where
  "bm_step env (Start self) st = (start self st, Returned)"
| "bm_step env (Stop self) st =
     (case stop env self st of Inl e \<Rightarrow> (st, Returned) | Inr st' \<Rightarrow> (st', Returned))"
| "bm_step env (StartAll execute_in_subprocess wait_for_subprocess) st =
     start_all env execute_in_subprocess wait_for_subprocess st"

fun bm_run :: "(os_env \<times> bm_call) list \<Rightarrow> bm_state \<Rightarrow> bm_state" where
  "bm_run [] st = st"
| "bm_run (c # cs) st =
     (case bm_step (fst c) (snd c) st of
        (st', Returned) \<Rightarrow> bm_run cs st'
      | (st', Blocked) \<Rightarrow> st')"

text \<open>The class as the module defines it: no worker, no watcher registered.\<close>

definition BackgroundMonitor_class :: "bm_state" where
  "BackgroundMonitor_class =
     \<lparr> main_process = None, parent_pid = None, sub_process_started = None, instances = [],
       heap = (\<lambda>_. BackgroundMonitor_init 0 0), forked = [], next_thread = 0 \<rparr>"

subsection \<open>Scenarios\<close>

text \<open>
  Process 10 launches the worker 12. Later the handle has become useless for the direct
  check (\<open>is_alive\<close> raises, as it does in every process but the one that started the
  worker) and the probe runs in process \<open>me\<close>. \<open>probe_env me parent_found children status\<close>
  is what it sees: psutil finds every process but, unless \<open>parent_found\<close>, process 10;
  \<open>children\<close> are the descendants of process 10 and no other process has any; \<open>status\<close>
  is the status of process 12.
\<close>

definition probe_env :: "pid \<Rightarrow> bool \<Rightarrow> pid list \<Rightarrow> proc_status \<Rightarrow> os_env" where
  "probe_env me parent_found children status =
     \<lparr> getpid = me, new_pid = 12, child_sets_started = True,
       proc_is_alive = (\<lambda>_. Inl AssertionError),
       thread_is_alive = (\<lambda>_. False),
       psutil_Process = (\<lambda>q. if q = 10 \<and> \<not> parent_found then Some NoSuchProcess else None),
       psutil_status = (\<lambda>q. if q = 12 then Inr status else Inl NoSuchProcess),
       psutil_children = (\<lambda>q. if q = 10 then Inr children else Inr []) \<rparr>"

definition launched_state :: bm_state where
  "launched_state =
     fst (start_all (probe_env 10 True [] STATUS_RUNNING) True False BackgroundMonitor_class)"

text \<open>
  Watcher 0 registered and started in thread mode, its thread alive; and the same watcher
  in a process that has launched the worker 12, after the worker's copy has set the
  started signal.
\<close>

definition thread_env :: os_env where
  "thread_env =
     \<lparr> getpid = 10, new_pid = 12, child_sets_started = True,
       proc_is_alive = (\<lambda>_. Inr True), thread_is_alive = (\<lambda>_. True),
       psutil_Process = (\<lambda>_. None), psutil_status = (\<lambda>_. Inr STATUS_RUNNING),
       psutil_children = (\<lambda>_. Inr []) \<rparr>"

definition registered_state :: bm_state where
  "registered_state =
     start 0 (BackgroundMonitor_class\<lparr> heap := (heap BackgroundMonitor_class)(0 := BackgroundMonitor_init 10 5) \<rparr>)"

definition thread_mode_state :: bm_state where
  "thread_mode_state = fst (start_all thread_env False False registered_state)"

definition subprocess_mode_state :: bm_state where
  "subprocess_mode_state =
     upd 0 (\<lambda>w. w\<lparr> w_start_ev := ev_set (w_start_ev w) \<rparr>)
       (fst (start_all thread_env True True registered_state))"

text \<open>
  Process 10 launches the worker 12 before any watcher is registered. Afterwards it creates
  watcher 0, starts it and launches it as a thread with \<open>start_all(False)\<close>: the watcher
  keeps its thread-mode signals and \<^verbatim>\<open>_subprocess\<close> stays \<^verbatim>\<open>None\<close>. In
  \<open>dead_worker_env\<close> the worker has exited and the thread is alive.
\<close>

definition late_state :: bm_state where
  "late_state =
     (let s1 = fst (start_all thread_env True False BackgroundMonitor_class);
          s2 = s1\<lparr> heap := (heap s1)(0 := BackgroundMonitor_init 10 5) \<rparr>;
          s3 = start 0 s2
      in fst (start_all thread_env False False s3))"

definition dead_worker_env :: os_env where
  "dead_worker_env = thread_env\<lparr> proc_is_alive := (\<lambda>_. Inr False) \<rparr>"

text \<open>
  Two schedules: the stop signal is set during the third wait, whatever the timeout; it is
  never set.
\<close>

definition stop_at_third_wait :: "nat \<Rightarrow> nat \<Rightarrow> bool" where
  "stop_at_third_wait k t = (2 \<le> k)"

definition never_stopped :: "nat \<Rightarrow> nat \<Rightarrow> bool" where
  "never_stopped k t = False"

section \<open>\<^verbatim>\<open>clearml/utilities/process/mp.py\<close>: \<open>SingletonLock\<close> and \<open>SafeQueue\<close>\<close>

text \<open>
  A call returns a value, raises, or blocks for ever (a lock that is held and that nobody
  will release, a read from a queue nothing will be written to). The state reached is kept
  beside the reply in each case.
\<close>

datatype 'a reply = Return 'a | Raise exn | Block

subsection \<open>\<open>SingletonLock\<close> (lines 53 to 88)\<close>

text \<open>
  \<open>SingletonLock\<close> objects are compared by identity: \<open>sl_instances\<close> is the class list
  \<^verbatim>\<open>_instances\<close> of their addresses and \<open>sl_lock\<close> gives the field \<^verbatim>\<open>_lock\<close> of each,
  \<^verbatim>\<open>None\<close> or the address of an operating-system lock. \<open>os_allocated\<close> counts the
  \<^verbatim>\<open>Lock()\<close> calls made so far and is the address the next one returns; \<open>os_held\<close> says
  which locks are held.
\<close>

record sl_state =
  sl_instances :: "nat list"
  sl_lock :: "nat \<Rightarrow> nat option"
  os_held :: "nat \<Rightarrow> bool"
  os_allocated :: nat

definition SingletonLock_init :: "nat \<Rightarrow> sl_state \<Rightarrow> sl_state" where
  "SingletonLock_init self st =
     st\<lparr> sl_lock := (sl_lock st)(self := None), sl_instances := sl_instances st @ [self] \<rparr>"

definition create :: "nat \<Rightarrow> sl_state \<Rightarrow> sl_state" where
  "create self st =
     (case sl_lock st self of
        None \<Rightarrow>
          st\<lparr> sl_lock := (sl_lock st)(self := Some (os_allocated st)),
              os_held := (os_held st)(os_allocated st := False),
              os_allocated := Suc (os_allocated st) \<rparr>
      | Some l \<Rightarrow> st)"

text \<open>
  \<open>acquire\<close> passes its arguments on to \<^verbatim>\<open>Lock.acquire\<close>; \<open>block\<close> is the first of them
  (\<^verbatim>\<open>True\<close> by default). A blocking acquire of a held lock does not return; a
  non-blocking one returns \<^verbatim>\<open>False\<close>.
\<close>

definition acquire :: "bool \<Rightarrow> nat \<Rightarrow> sl_state \<Rightarrow> sl_state \<times> bool reply" where
  "acquire block self st =
     (let st1 = create self st
      in case sl_lock st1 self of
           None \<Rightarrow> (st1, Raise AttributeError)
         | Some l \<Rightarrow>
             (if os_held st1 l
              then (if block then (st1, Block) else (st1, Return False))
              else (st1\<lparr> os_held := (os_held st1)(l := True) \<rparr>, Return True)))"

text \<open>
  \<open>release\<close> returns \<^verbatim>\<open>None\<close> when no lock was created; releasing a
  \<^verbatim>\<open>multiprocessing.Lock\<close> that is not held raises \<^verbatim>\<open>ValueError\<close>.
\<close>

definition release :: "nat \<Rightarrow> sl_state \<Rightarrow> sl_state \<times> unit reply" where
  "release self st =
     (case sl_lock st self of
        None \<Rightarrow> (st, Return ())
      | Some l \<Rightarrow>
          (if os_held st l
           then (st\<lparr> os_held := (os_held st)(l := False) \<rparr>, Return ())
           else (st, Raise ValueError)))"

definition instantiate :: "sl_state \<Rightarrow> sl_state" where
  "instantiate st = fold create (sl_instances st) st"

text \<open>\<open>__enter__\<close> (lines 78 to 81); the value returned is \<open>self\<close>.\<close>

definition enter :: "nat \<Rightarrow> sl_state \<Rightarrow> sl_state \<times> unit reply" where
  "enter self st =
     (case acquire True self st of
        (st1, Return b) \<Rightarrow> (st1, Return ())
      | (st1, Raise e) \<Rightarrow> (st1, Raise e)
      | (st1, Block) \<Rightarrow> (st1, Block))"

text \<open>
  \<open>__exit__\<close> (lines 83 to 88). \<open>exc\<close> is the exception in flight, if any: then
  \<^verbatim>\<open>exc_type\<close> is a class and \<^verbatim>\<open>any(...)\<close> holds, and without one the three arguments
  are \<^verbatim>\<open>None\<close>. In Python 3 the statement \<^verbatim>\<open>raise (exc_type, exc_value, traceback)\<close>
  raises \<^verbatim>\<open>TypeError\<close>, a tuple being no exception.
\<close>

definition exit :: "nat \<Rightarrow> exn option \<Rightarrow> sl_state \<Rightarrow> sl_state \<times> unit reply" where
  "exit self exc st =
     (case release self st of
        (st1, Return u) \<Rightarrow> (if exc \<noteq> None then (st1, Raise TypeError) else (st1, Return ()))
      | (st1, Raise e) \<Rightarrow> (st1, Raise e)
      | (st1, Block) \<Rightarrow> (st1, Block))"

text \<open>
  \<^verbatim>\<open>with lock: body\<close>, as the language runs it: \<open>__enter__\<close>, the body, then \<open>__exit__\<close>
  with the exception of the body, if any. An exception of \<open>__exit__\<close> replaces the one in
  flight; when \<open>__exit__\<close> returns (here always \<^verbatim>\<open>None\<close>), the one in flight goes on to
  the caller.
\<close>

definition with_stmt ::
  "nat \<Rightarrow> (sl_state \<Rightarrow> sl_state \<times> unit reply) \<Rightarrow> sl_state \<Rightarrow> sl_state \<times> unit reply" where
  "with_stmt self body st =
     (case enter self st of
        (st1, Return u) \<Rightarrow>
          (case body st1 of
             (st2, Return v) \<Rightarrow> exit self None st2
           | (st2, Raise e) \<Rightarrow>
               (case exit self (Some e) st2 of
                  (st3, Return v) \<Rightarrow> (st3, Raise e)
                | (st3, Raise e') \<Rightarrow> (st3, Raise e')
                | (st3, Block) \<Rightarrow> (st3, Block))
           | (st2, Block) \<Rightarrow> (st2, Block))
      | (st1, Raise e) \<Rightarrow> (st1, Raise e)
      | (st1, Block) \<Rightarrow> (st1, Block))"

text \<open>A sequence of \<open>create\<close> calls on chosen instances and of \<open>instantiate\<close> calls.\<close>

datatype sl_call = Create nat | Instantiate

fun sl_run :: "sl_call list \<Rightarrow> sl_state \<Rightarrow> sl_state" where
  "sl_run [] st = st"
| "sl_run (Create self # cs) st = sl_run cs (create self st)"
| "sl_run (Instantiate # cs) st = sl_run cs (instantiate st)"

text \<open>The lock of \<open>self\<close> is not held (or not yet created).\<close>

definition lock_free :: "sl_state \<Rightarrow> nat \<Rightarrow> bool" where
  "lock_free st self = (case sl_lock st self of None \<Rightarrow> True | Some l \<Rightarrow> \<not> os_held st l)"

text \<open>The class before any instance exists, and one declared \<open>SingletonLock\<close>, number 0.\<close>

definition SingletonLock_class :: sl_state where
  "SingletonLock_class =
     \<lparr> sl_instances = [], sl_lock = (\<lambda>_. None), os_held = (\<lambda>_. False), os_allocated = 0 \<rparr>"

definition one_lock :: sl_state where
  "one_lock = SingletonLock_init 0 SingletonLock_class"

subsection \<open>\<open>SafeQueue\<close> (lines 19 to 50)\<close>

text \<open>
  The class attributes are \<open>sq_lock\<close> (\<^verbatim>\<open>__lock\<close>: \<^verbatim>\<open>None\<close>, or a lock that is held
  or free), \<open>sq_thread_pool\<close> (\<^verbatim>\<open>__thread_pool\<close>: \<^verbatim>\<open>None\<close>, or a pool of one worker
  thread, given by the tasks handed to \<^verbatim>\<open>apply_async\<close> and not yet run, oldest first;
  a task is the queue to write to and the object) and \<open>sq_thread_pool_pid\<close>. \<open>sq_q\<close> is
  the \<^verbatim>\<open>SimpleQueue\<close> of each \<open>SafeQueue\<close> object: the objects written and not yet read,
  oldest first. \<^verbatim>\<open>SimpleQueue.put\<close> pickles the object and \<^verbatim>\<open>SimpleQueue.get\<close>
  unpickles it: an object that can be pickled comes back as an equal value, one that cannot
  is never written (see \<open>worker_step\<close>); the pipe takes whatever is written. \<open>sq_log\<close>
  records the order of what \<open>put\<close> and the constructor do to the class.

  The calling process is the argument \<open>pid\<close> (\<^verbatim>\<open>os.getpid()\<close>). A pool's worker thread
  lives in the process that created the pool, the one \<open>sq_thread_pool_pid\<close> names: the
  copy of the pool a forked child inherits has no worker.
\<close>

datatype sq_event = LockAcquired | PoolCreated pid | LockReleased | Dispatched nat

record 'a sq_state =
  sq_lock :: "bool option"
  sq_thread_pool :: "(nat \<times> 'a) list option"
  sq_thread_pool_pid :: "pid option"
  sq_q :: "nat \<Rightarrow> 'a list"
  sq_log :: "sq_event list"

text \<open>
  \<^verbatim>\<open>with SafeQueue.__lock: body\<close>, for a body that does not raise. Entering \<^verbatim>\<open>None\<close>
  raises; a held lock blocks.
\<close>

definition with_lock :: "('a sq_state \<Rightarrow> 'a sq_state) \<Rightarrow> 'a sq_state \<Rightarrow> 'a sq_state \<times> unit reply" where
  "with_lock body st =
     (case sq_lock st of
        None \<Rightarrow> (st, Raise AttributeError)
      | Some True \<Rightarrow> (st, Block)
      | Some False \<Rightarrow>
          (let st1 = st\<lparr> sq_lock := Some True, sq_log := sq_log st @ [LockAcquired] \<rparr>;
               st2 = body st1
           in (st2\<lparr> sq_lock := Some False, sq_log := sq_log st2 @ [LockReleased] \<rparr>, Return ())))"

definition new_pool :: "pid \<Rightarrow> 'a sq_state \<Rightarrow> 'a sq_state" where
  "new_pool pid st =
     st\<lparr> sq_thread_pool_pid := Some pid, sq_thread_pool := Some [],
         sq_log := sq_log st @ [PoolCreated pid] \<rparr>"

text \<open>\<open>__init__\<close> (lines 24 to 32), for the object at address \<open>self\<close>.\<close>

definition SafeQueue_init :: "pid \<Rightarrow> nat \<Rightarrow> 'a sq_state \<Rightarrow> 'a sq_state \<times> unit reply" where
  "SafeQueue_init pid self st =
     (let st1 = st\<lparr> sq_q := (sq_q st)(self := []) \<rparr>;
          st2 = (if sq_lock st1 = None then st1\<lparr> sq_lock := Some False \<rparr> else st1)
      in if sq_thread_pool st2 = None
         then with_lock (\<lambda>s. if sq_thread_pool s = None then new_pool pid s else s) st2
         else (st2, Return ()))"

definition sq_empty :: "nat \<Rightarrow> 'a sq_state \<Rightarrow> bool" where
  "sq_empty self st = (sq_q st self = [])"

text \<open>\<open>put\<close> (lines 40 to 50).\<close>

definition apply_async :: "nat \<Rightarrow> 'a \<Rightarrow> 'a sq_state \<Rightarrow> 'a sq_state \<times> unit reply" where
  "apply_async self obj st =
     (case sq_thread_pool st of
        None \<Rightarrow> (st, Raise AttributeError)
      | Some tasks \<Rightarrow>
          (st\<lparr> sq_thread_pool := Some (tasks @ [(self, obj)]),
               sq_log := sq_log st @ [Dispatched self] \<rparr>, Return ()))"

definition put :: "pid \<Rightarrow> nat \<Rightarrow> 'a \<Rightarrow> 'a sq_state \<Rightarrow> 'a sq_state \<times> unit reply" where
  "put pid self obj st =
     (case (if Some pid \<noteq> sq_thread_pool_pid st
            then with_lock (\<lambda>s. if Some pid \<noteq> sq_thread_pool_pid s then new_pool pid s else s) st
            else (st, Return ())) of
        (st1, Return u) \<Rightarrow> apply_async self obj st1
      | (st1, Raise e) \<Rightarrow> (st1, Raise e)
      | (st1, Block) \<Rightarrow> (st1, Block))"

text \<open>
  The worker thread of the pool, in process \<open>pid\<close>: one step runs the oldest task, that is
  \<^verbatim>\<open>self._q.put(obj)\<close>, which pickles the object and writes the bytes. \<open>can_pickle\<close>
  says which objects the pickler accepts. For one it refuses, the call raises in the pool
  thread; \<^verbatim>\<open>apply_async\<close> keeps the exception in a result object that \<open>put\<close> threw
  away, so nobody sees it and nothing is written. The worker runs whenever the scheduler
  lets it: \<open>worker_run n\<close> is any amount of progress.
\<close>

definition worker_step :: "('a \<Rightarrow> bool) \<Rightarrow> pid \<Rightarrow> 'a sq_state \<Rightarrow> 'a sq_state" where
  "worker_step can_pickle pid st =
     (if sq_thread_pool_pid st = Some pid
      then (case sq_thread_pool st of
              Some ((q, obj) # tasks) \<Rightarrow>
                (if can_pickle obj
                 then st\<lparr> sq_q := (sq_q st)(q := sq_q st q @ [obj]),
                          sq_thread_pool := Some tasks \<rparr>
                 else st\<lparr> sq_thread_pool := Some tasks \<rparr>)
            | _ \<Rightarrow> st)
      else st)"


definition pending :: "'a sq_state \<Rightarrow> (nat \<times> 'a) list" where
  "pending st = (case sq_thread_pool st of None \<Rightarrow> [] | Some tasks \<Rightarrow> tasks)"

text \<open>
  \<open>get\<close> (lines 37 and 38) is \<^verbatim>\<open>SimpleQueue.get\<close>: it returns the oldest object, and
  while there is none the caller is suspended and the worker runs. With nothing in the
  queue and nothing left for the worker to write, a single process waits for ever.
\<close>

fun get_waiting ::
  "nat \<Rightarrow> ('a \<Rightarrow> bool) \<Rightarrow> pid \<Rightarrow> nat \<Rightarrow> 'a sq_state \<Rightarrow> 'a sq_state \<times> 'a reply" where
  "get_waiting n can_pickle pid self st =
     (case sq_q st self of
        obj # rest \<Rightarrow> (st\<lparr> sq_q := (sq_q st)(self := rest) \<rparr>, Return obj)
      | [] \<Rightarrow>
          (case n of
             0 \<Rightarrow> (st, Block)
           | Suc m \<Rightarrow> get_waiting m can_pickle pid self (worker_step can_pickle pid st)))"




text \<open>The class as the module defines it, and the state after the first queue is built.\<close>

definition SafeQueue_class :: "'a sq_state" where
  "SafeQueue_class =
     \<lparr> sq_lock = None, sq_thread_pool = None, sq_thread_pool_pid = None, sq_q = (\<lambda>_. []),
       sq_log = [] \<rparr>"

definition first_queue :: "pid \<Rightarrow> 'a sq_state" where
  "first_queue pid = fst (SafeQueue_init pid 0 SafeQueue_class)"

text \<open>
  A \<open>SafeQueue\<close> has been constructed: the class has its lock and a pool. The state is
  \<open>quiescent\<close> when, besides, nobody holds the lock.
\<close>

definition constructed :: "'a sq_state \<Rightarrow> bool" where
  "constructed st = (sq_lock st \<noteq> None \<and> sq_thread_pool st \<noteq> None)"

definition quiescent :: "'a sq_state \<Rightarrow> bool" where
  "quiescent st = (sq_lock st = Some False \<and> sq_thread_pool st \<noteq> None)"



section \<open>Seeding: proofs\<close>

lemma reduce_seed_mod: "reduce_seed seed = seed mod 2 ^ 32"
proof -
  have "seed AND 0xFFFFFFFF = seed AND mask 32"
    by (simp add: mask_eq_exp_minus_1)
  also have "\<dots> = take_bit 32 seed"
    by (simp only: take_bit_eq_mask)
  also have "\<dots> = seed mod 2 ^ 32"
    by (simp only: take_bit_eq_mod)
  finally show ?thesis
    by (simp only: reduce_seed_def)
qed

lemma reduce_seed_range: "0 \<le> reduce_seed seed \<and> reduce_seed seed < 2 ^ 32"
  by (simp add: reduce_seed_mod)

lemma and_then_calls:
  assumes "list_all (seeded_with r) (fst a)" and "list_all (seeded_with r) (fst b)"
  shows "list_all (seeded_with r) (fst (and_then a b))"
  using assms by (simp add: and_then_def split: option.splits)

lemma parts_calls:
  "list_all (seeded_with r) (fst (cudnn_part env b))"
  "list_all (seeded_with r) (fst (np_part env r))"
  "list_all (seeded_with r) (fst (cv2_part env r))"
  "list_all (seeded_with r) (fst (torch_part env r))"
  "list_all (seeded_with r) (fst (tf_seed env r))"
  by (simp_all add: cudnn_part_def np_part_def cv2_part_def torch_part_def tf_seed_def
        and_then_def seeded_with_def split: option.splits)

lemma tf_part_calls: "list_all (seeded_with r) (fst (tf_part env r))"
  by (simp add: tf_part_def parts_calls(5) split: sum.splits)

lemma make_deterministic_calls:
  "list_all (seeded_with (reduce_seed seed)) (fst (make_deterministic env seed b))"
  unfolding make_deterministic_def Let_def
  by (intro and_then_calls parts_calls tf_part_calls) (simp add: seeded_with_def)

lemma seed_args_reduced:
  assumes c: "c \<in> set (fst (make_deterministic env seed b))" and s: "seed_arg c = Some s"
  shows "s = reduce_seed seed"
proof -
  from make_deterministic_calls [of seed env b] c
  have "seeded_with (reduce_seed seed) c"
    by (simp add: list_all_iff)
  with s show ?thesis
    by (simp add: seeded_with_def)
qed

text \<open>
  C10. Every library is seeded with the low 32 bits of the seed and with nothing else:
  each seeding call gets \<open>seed AND 0xFFFFFFFF\<close>, which is \<open>seed mod 2 ^ 32\<close>, a value in
  \<open>[0, 2 ^ 32)\<close>. Hence two seeds congruent modulo \<open>2 ^ 32\<close> make the same calls with the
  same arguments and end the same way, whatever libraries are installed and however they
  react to the value they are given.
\<close>

theorem make_deterministic_low_32_bits:
  "(\<forall>c \<in> set (fst (make_deterministic env seed cudnn)).
      \<forall>s. seed_arg c = Some s \<longrightarrow> s = seed AND 0xFFFFFFFF \<and> s = seed mod 2 ^ 32 \<and> 0 \<le> s \<and> s < 2 ^ 32)
   \<and> (seed mod 2 ^ 32 = seed' mod 2 ^ 32 \<longrightarrow>
        make_deterministic env seed cudnn = make_deterministic env seed' cudnn)"
proof (intro conjI ballI allI impI)
  fix c s
  assume c: "c \<in> set (fst (make_deterministic env seed cudnn))" and s: "seed_arg c = Some s"
  have r: "s = reduce_seed seed"
    by (rule seed_args_reduced [OF c s])
  show "s = seed AND 0xFFFFFFFF"
    using r by (simp only: reduce_seed_def)
  show "s = seed mod 2 ^ 32"
    using r by (simp only: reduce_seed_mod)
  show "0 \<le> s" and "s < 2 ^ 32"
    using r reduce_seed_range [of seed] by simp_all
next
  assume "seed mod 2 ^ 32 = seed' mod 2 ^ 32"
  then have "reduce_seed seed = reduce_seed seed'"
    by (simp only: reduce_seed_mod)
  then show "make_deterministic env seed cudnn = make_deterministic env seed' cudnn"
    by (simp only: make_deterministic_def)
qed

text \<open>The seeds \<open>2 ^ 32 + 5\<close> and \<open>5\<close>, with every library installed.\<close>

theorem make_deterministic_low_32_bits_witness:
  "NpRandomSeed 5 \<in> set (fst (make_deterministic all_libraries 4294967301 True))
   \<and> seed_arg (NpRandomSeed 5) = Some 5
   \<and> (5::int) = 4294967301 AND 0xFFFFFFFF \<and> (5::int) = 4294967301 mod 2 ^ 32
   \<and> (4294967301::int) mod 2 ^ 32 = 5 mod 2 ^ 32
   \<and> make_deterministic all_libraries 4294967301 True = make_deterministic all_libraries 5 True
   \<and> make_deterministic all_libraries 5 True =
       ([CudnnDeterministic, CudnnBenchmark, RandomSeed 5, NpRandomSeed 5, Cv2SetRNGSeed 5,
         TorchManualSeed 5, TorchCudaManualSeed 5, TfSetRandomSeed 5, TfRandomSetRandomSeed 5],
        None)"
proof -
  have r: "reduce_seed 4294967301 = 5" "reduce_seed 5 = 5"
    by (simp_all add: reduce_seed_def)
  have v: "make_deterministic all_libraries 5 True =
       ([CudnnDeterministic, CudnnBenchmark, RandomSeed 5, NpRandomSeed 5, Cv2SetRNGSeed 5,
         TorchManualSeed 5, TorchCudaManualSeed 5, TfSetRandomSeed 5, TfRandomSetRandomSeed 5],
        None)"
    by (simp add: make_deterministic_def r and_then_def cudnn_part_def np_part_def cv2_part_def
          torch_part_def tf_part_def tf_seed_def swallow_def all_libraries_def)
  have m: "NpRandomSeed 5 \<in> set (fst (make_deterministic all_libraries 4294967301 True))"
    by (simp add: make_deterministic_def r and_then_def cudnn_part_def np_part_def cv2_part_def
          torch_part_def tf_part_def tf_seed_def swallow_def all_libraries_def)
  have a: "seed_arg (NpRandomSeed 5) = Some 5"
    by simp
  have c: "(4294967301::int) mod 2 ^ 32 = 5 mod 2 ^ 32"
    by simp
  from make_deterministic_low_32_bits [of all_libraries 4294967301 True 5] m a c v
  show ?thesis
    by blast
qed

section \<open>The poll loop: proofs\<close>

lemma fst_daemon_step: "fst (daemon_step r) = fst r"
  by (simp add: daemon_step_def)

lemma daemon_runs:
  "stop_seen stop_by (fst r) (k + n) \<Longrightarrow> (\<forall>j<n. \<not> stop_seen stop_by (fst r) (k + j)) \<Longrightarrow>
   daemon stop_by k r =
     Some ((fst r)\<lparr> w_event := ev_set (w_event (fst r)) \<rparr>,
           snd r @ concat (replicate n [Wait (w_wait_timeout (fst r)), Tick])
             @ [Wait (w_wait_timeout (fst r)), StopObserved])"
proof (induction n arbitrary: k r)
  case 0
  then show ?case
    by (subst daemon.simps) simp
next
  case (Suc n)
  let ?t = "w_wait_timeout (fst r)"
  let ?r' = "daemon_step (fst r, snd r @ [Wait ?t])"
  have not_now: "\<not> stop_seen stop_by (fst r) k"
    using Suc.prems(2) [rule_format, of 0] by simp
  have fst': "fst ?r' = fst r"
    by (simp add: daemon_step_def)
  have seen: "stop_seen stop_by (fst ?r') (Suc k + n)"
    using Suc.prems(1) by (simp add: fst')
  have unseen: "\<forall>j<n. \<not> stop_seen stop_by (fst ?r') (Suc k + j)"
  proof (intro allI impI)
    fix j assume "j < n"
    then have "Suc j < Suc n" by simp
    from Suc.prems(2) [rule_format, OF this] show "\<not> stop_seen stop_by (fst ?r') (Suc k + j)"
      by (simp add: fst')
  qed
  have "daemon stop_by k r = daemon stop_by (Suc k) ?r'"
    using not_now by (subst daemon.simps) simp
  also have "\<dots> = Some ((fst ?r')\<lparr> w_event := ev_set (w_event (fst ?r')) \<rparr>,
           snd ?r' @ concat (replicate n [Wait (w_wait_timeout (fst ?r')), Tick])
             @ [Wait (w_wait_timeout (fst ?r')), StopObserved])"
    by (rule Suc.IH [OF seen unseen])
  also have "\<dots> = Some ((fst r)\<lparr> w_event := ev_set (w_event (fst r)) \<rparr>,
           snd r @ concat (replicate (Suc n) [Wait ?t, Tick]) @ [Wait ?t, StopObserved])"
    by (simp add: daemon_step_def)
  finally show ?case .
qed

lemma daemon_Some_seen:
  assumes "daemon stop_by k r = Some y"
  shows "\<exists>j. stop_seen stop_by (fst r) j"
proof (rule daemon.raw_induct [where P = "\<lambda>sb k r y. \<exists>j. stop_seen sb (fst r) j", OF _ assms])
  fix d sb k' r' y'
  assume IH: "\<And>sb k r y. d sb k r = Some y \<Longrightarrow> \<exists>j. stop_seen sb (fst r) j"
    and step: "(if stop_seen sb (fst r') k'
      then Some ((fst r')\<lparr>w_event := ev_set (w_event (fst r'))\<rparr>,
                 snd r' @ [Wait (w_wait_timeout (fst r')), StopObserved])
      else d sb (Suc k') (daemon_step (fst r', snd r' @ [Wait (w_wait_timeout (fst r'))]))) = Some y'"
  show "\<exists>j. stop_seen sb (fst r') j"
  proof (cases "stop_seen sb (fst r') k'")
    case True
    then show ?thesis by blast
  next
    case False
    with step have "d sb (Suc k') (daemon_step (fst r', snd r' @ [Wait (w_wait_timeout (fst r'))])) = Some y'"
      by simp
    from IH [OF this] show ?thesis
      by (simp add: daemon_step_def)
  qed
qed

lemma daemon_forever:
  "(\<forall>j. \<not> stop_seen stop_by (fst r) j) \<Longrightarrow> daemon stop_by k r = None"
  using daemon_Some_seen [of stop_by k r] by (cases "daemon stop_by k r") auto

lemma stop_seen_start_ev [simp]:
  "stop_seen stop_by (w\<lparr> w_start_ev := e \<rparr>) k = stop_seen stop_by w k"
  by (simp add: stop_seen_def)

text \<open>
  C2. A run of the watcher's thread whose stop signal is first seen at the \<open>n\<close>-th wait
  (no earlier wait saw it) returns, and does exactly this, in this order: it sets the
  started signal; \<open>n\<close> times it waits on the stop signal with the timeout \<open>wait_period\<close>,
  the wait times out and one tick follows; it waits once more, sees the stop signal and
  the loop breaks; \<open>post_execution\<close> is called; the done signal is set. So the started
  signal is set before the first tick, and the done signal after the last tick and after
  the call of the post-run hook. (In the code the hook \<open>post_execution\<close> is the method whose
  body sets the done signal.) A run that never sees the stop signal does not return and
  never sets the done signal.
\<close>

theorem daemon_main_order:
  "(stop_seen stop_by w n \<and> (\<forall>k<n. \<not> stop_seen stop_by w k) \<longrightarrow>
      daemon_main stop_by w =
        Some (w\<lparr> w_start_ev := ev_set (w_start_ev w), w_event := ev_set (w_event w),
                 w_done_ev := ev_set (w_done_ev w) \<rparr>,
              [StartedSet] @ concat (replicate n [Wait (w_wait_timeout w), Tick])
                @ [Wait (w_wait_timeout w), StopObserved, PostExecution, DoneSet]))
   \<and> ((\<forall>k. \<not> stop_seen stop_by w k) \<longrightarrow> daemon_main stop_by w = None)"
proof (intro conjI impI)
  let ?r = "(w\<lparr> w_start_ev := ev_set (w_start_ev w) \<rparr>, [StartedSet])"
  assume a: "stop_seen stop_by w n \<and> (\<forall>k<n. \<not> stop_seen stop_by w k)"
  have s: "stop_seen stop_by (fst ?r) (0 + n)" using a by simp
  have u: "\<forall>j<n. \<not> stop_seen stop_by (fst ?r) (0 + j)" using a by simp
  show "daemon_main stop_by w =
        Some (w\<lparr> w_start_ev := ev_set (w_start_ev w), w_event := ev_set (w_event w),
                 w_done_ev := ev_set (w_done_ev w) \<rparr>,
              [StartedSet] @ concat (replicate n [Wait (w_wait_timeout w), Tick])
                @ [Wait (w_wait_timeout w), StopObserved, PostExecution, DoneSet])"
    unfolding daemon_main_def daemon_runs [OF s u]
    by (simp add: post_execution_def)
next
  let ?r = "(w\<lparr> w_start_ev := ev_set (w_start_ev w) \<rparr>, [StartedSet])"
  assume "\<forall>k. \<not> stop_seen stop_by w k"
  then have "\<forall>j. \<not> stop_seen stop_by (fst ?r) j" by simp
  from daemon_forever [OF this, of 0] show "daemon_main stop_by w = None"
    by (simp add: daemon_main_def)
qed

text \<open>
  A fresh watcher with \<open>wait_period\<close> 5 whose stop signal is set during the third wait:
  two ticks. The same watcher when nobody ever stops it.
\<close>

theorem daemon_main_order_witness:
  "stop_seen stop_at_third_wait (BackgroundMonitor_init 1 5) 2
   \<and> \<not> stop_seen stop_at_third_wait (BackgroundMonitor_init 1 5) 0
   \<and> \<not> stop_seen stop_at_third_wait (BackgroundMonitor_init 1 5) 1
   \<and> daemon_main stop_at_third_wait (BackgroundMonitor_init 1 5) =
       Some ((BackgroundMonitor_init 1 5)\<lparr> w_start_ev := \<lparr> kind = TrEvent, is_set = True \<rparr>,
                w_event := \<lparr> kind = TrEvent, is_set = True \<rparr>,
                w_done_ev := \<lparr> kind = TrEvent, is_set = True \<rparr> \<rparr>,
             [StartedSet, Wait 5, Tick, Wait 5, Tick, Wait 5, StopObserved,
              PostExecution, DoneSet])
   \<and> daemon_main never_stopped (BackgroundMonitor_init 1 5) = None"
proof -
  let ?w = "BackgroundMonitor_init 1 5"
  have s: "stop_seen stop_at_third_wait ?w 2"
    by (simp add: stop_seen_def stop_at_third_wait_def)
  have u: "\<forall>k<2. \<not> stop_seen stop_at_third_wait ?w k"
    by (simp add: stop_seen_def stop_at_third_wait_def BackgroundMonitor_init_def new_event_def)
  have v: "\<forall>k. \<not> stop_seen never_stopped ?w k"
    by (simp add: stop_seen_def never_stopped_def BackgroundMonitor_init_def new_event_def)
  from daemon_main_order [of stop_at_third_wait ?w 2] s u
  have 1: "daemon_main stop_at_third_wait ?w =
        Some (?w\<lparr> w_start_ev := ev_set (w_start_ev ?w), w_event := ev_set (w_event ?w),
                 w_done_ev := ev_set (w_done_ev ?w) \<rparr>,
              [StartedSet] @ concat (replicate 2 [Wait (w_wait_timeout ?w), Tick])
                @ [Wait (w_wait_timeout ?w), StopObserved, PostExecution, DoneSet])"
    by blast
  from daemon_main_order [of never_stopped ?w 0] v
  have 2: "daemon_main never_stopped ?w = None"
    by blast
  have e: "?w\<lparr> w_start_ev := ev_set (w_start_ev ?w), w_event := ev_set (w_event ?w),
                 w_done_ev := ev_set (w_done_ev ?w) \<rparr>
      = ?w\<lparr> w_start_ev := \<lparr> kind = TrEvent, is_set = True \<rparr>,
                w_event := \<lparr> kind = TrEvent, is_set = True \<rparr>,
                w_done_ev := \<lparr> kind = TrEvent, is_set = True \<rparr> \<rparr>"
    by (simp add: ev_set_def BackgroundMonitor_init_def new_event_def)
  have l: "[StartedSet] @ concat (replicate 2 [Wait (w_wait_timeout ?w), Tick])
                @ [Wait (w_wait_timeout ?w), StopObserved, PostExecution, DoneSet]
      = [StartedSet, Wait 5, Tick, Wait 5, Tick, Wait 5, StopObserved, PostExecution, DoneSet]"
    by (simp add: BackgroundMonitor_init_def numeral_2_eq_2)
  have u0: "\<not> stop_seen stop_at_third_wait ?w 0" and u1: "\<not> stop_seen stop_at_third_wait ?w 1"
    using u by simp_all
  from 1 have 3: "daemon_main stop_at_third_wait ?w =
       Some (?w\<lparr> w_start_ev := \<lparr> kind = TrEvent, is_set = True \<rparr>,
                w_event := \<lparr> kind = TrEvent, is_set = True \<rparr>,
                w_done_ev := \<lparr> kind = TrEvent, is_set = True \<rparr> \<rparr>,
             [StartedSet, Wait 5, Tick, Wait 5, Tick, Wait 5, StopObserved,
              PostExecution, DoneSet])"
    by (simp only: e l)
  from s u0 u1 3 2 show ?thesis
    by (intro conjI)
qed

section \<open>Liveness of the shared subprocess: proofs\<close>

lemma scan_children_found:
  "current_pid \<in> set children \<Longrightarrow>
   scan_children env current_pid children =
     (case psutil_status env current_pid of
        Inl e \<Rightarrow> Inl e
      | Inr s \<Rightarrow> Inr (Some (s \<noteq> STATUS_ZOMBIE)))"
  by (induction children) auto

lemma scan_children_missing:
  "current_pid \<notin> set children \<Longrightarrow> scan_children env current_pid children = Inr (Some False)"
  by (induction children) auto

lemma is_subprocess_alive_fallback:
  "main_process st = Some p \<Longrightarrow> direct_check env p = Inl e \<Longrightarrow> is_Exception e \<Longrightarrow>
   is_subprocess_alive env st = fallback_scan env st p"
  by (simp add: is_subprocess_alive_def)

lemma fallback_scan_recorded:
  "parent_pid st = Some q \<Longrightarrow>
   fallback_scan env st p =
     (case psutil_Process env q of
        Some e \<Rightarrow> (if is_psutil_Error e then Inr None else Inl e)
      | None \<Rightarrow>
          (case psutil_children env q of
             Inl e \<Rightarrow> Inl e
           | Inr children \<Rightarrow> scan_children env (proc_pid p) children))"
  by (simp add: fallback_scan_def recorded_parent_def)

text \<open>
  C4. \<open>is_subprocess_alive\<close> returns \<^verbatim>\<open>False\<close> when no worker was launched. When the
  direct check raises an \<^verbatim>\<open>Exception\<close>, the answer comes from the descendants of the
  process whose pid the launch recorded in \<open>parent_pid\<close>, whichever process is asking:
  \<^verbatim>\<open>None\<close> (\<open>Inr None\<close>: neither \<^verbatim>\<open>False\<close> nor an exception) when psutil cannot find
  that process; whether the status is not zombie when the worker's pid is among its
  descendants; \<^verbatim>\<open>False\<close> when it is not among them.
\<close>

theorem is_subprocess_alive_cases:
  "(main_process st = None \<longrightarrow> is_subprocess_alive env st = Inr (Some False))
   \<and> (main_process st = Some p \<and> direct_check env p = Inl e \<and> is_Exception e
        \<and> parent_pid st = Some q \<longrightarrow>
        (psutil_Process env q = Some e' \<and> is_psutil_Error e' \<longrightarrow>
           is_subprocess_alive env st = Inr None)
        \<and> (psutil_Process env q = None \<and> psutil_children env q = Inr children \<longrightarrow>
             (proc_pid p \<in> set children \<and> psutil_status env (proc_pid p) = Inr s \<longrightarrow>
                is_subprocess_alive env st = Inr (Some (s \<noteq> STATUS_ZOMBIE)))
             \<and> (proc_pid p \<notin> set children \<longrightarrow>
                  is_subprocess_alive env st = Inr (Some False))))"
proof (intro conjI impI)
  assume "main_process st = None"
  then show "is_subprocess_alive env st = Inr (Some False)"
    by (simp add: is_subprocess_alive_def)
next
  assume a: "main_process st = Some p \<and> direct_check env p = Inl e \<and> is_Exception e
        \<and> parent_pid st = Some q"
    and b: "psutil_Process env q = Some e' \<and> is_psutil_Error e'"
  from a have "is_subprocess_alive env st = fallback_scan env st p"
    by (simp add: is_subprocess_alive_fallback)
  with a b show "is_subprocess_alive env st = Inr None"
    by (simp add: fallback_scan_recorded)
next
  assume a: "main_process st = Some p \<and> direct_check env p = Inl e \<and> is_Exception e
        \<and> parent_pid st = Some q"
    and b: "psutil_Process env q = None \<and> psutil_children env q = Inr children"
    and c: "proc_pid p \<in> set children \<and> psutil_status env (proc_pid p) = Inr s"
  from a have "is_subprocess_alive env st = fallback_scan env st p"
    by (simp add: is_subprocess_alive_fallback)
  also from a b have "\<dots> = scan_children env (proc_pid p) children"
    by (simp add: fallback_scan_recorded)
  also from c have "\<dots> = Inr (Some (s \<noteq> STATUS_ZOMBIE))"
    by (simp add: scan_children_found)
  finally show "is_subprocess_alive env st = Inr (Some (s \<noteq> STATUS_ZOMBIE))" .
next
  assume a: "main_process st = Some p \<and> direct_check env p = Inl e \<and> is_Exception e
        \<and> parent_pid st = Some q"
    and b: "psutil_Process env q = None \<and> psutil_children env q = Inr children"
    and c: "proc_pid p \<notin> set children"
  from a have "is_subprocess_alive env st = fallback_scan env st p"
    by (simp add: is_subprocess_alive_fallback)
  also from a b have "\<dots> = scan_children env (proc_pid p) children"
    by (simp add: fallback_scan_recorded)
  also from c have "\<dots> = Inr (Some False)"
    by (simp add: scan_children_missing)
  finally show "is_subprocess_alive env st = Inr (Some False)" .
qed

lemma launched_state_fields:
  "main_process launched_state = Some \<lparr> proc_pid = 12, proc_daemon = True \<rparr>"
  "parent_pid launched_state = Some 10"
  by (simp_all add: launched_state_def start_all_def BackgroundMonitor_class_def probe_env_def
        Let_def)

text \<open>
  The probe runs in process 13, a forked copy of process 10, so the caller is not the
  recorded parent and has no descendants of its own. No worker; parent 10 not found;
  worker found sleeping among the descendants of 10; worker found as a zombie; worker not
  among the descendants of 10.
\<close>

theorem is_subprocess_alive_cases_witness:
  "getpid (probe_env 13 True [11, 12, 13] STATUS_SLEEPING) = 13
   \<and> parent_pid launched_state = Some 10
   \<and> psutil_children (probe_env 13 True [11, 12, 13] STATUS_SLEEPING) 13 = Inr []
   \<and> is_subprocess_alive (probe_env 13 True [] STATUS_RUNNING) BackgroundMonitor_class
       = Inr (Some False)
   \<and> is_subprocess_alive (probe_env 13 False [] STATUS_RUNNING) launched_state = Inr None
   \<and> is_subprocess_alive (probe_env 13 True [11, 12, 13] STATUS_SLEEPING) launched_state
       = Inr (Some True)
   \<and> is_subprocess_alive (probe_env 13 True [11, 12, 13] STATUS_ZOMBIE) launched_state
       = Inr (Some False)
   \<and> is_subprocess_alive (probe_env 13 True [11, 13] STATUS_RUNNING) launched_state
       = Inr (Some False)"
proof -
  let ?p = "\<lparr> proc_pid = 12, proc_daemon = True \<rparr>"
  have raised: "main_process launched_state = Some ?p
      \<and> direct_check (probe_env 13 f cs s) ?p = Inl AssertionError \<and> is_Exception AssertionError
      \<and> parent_pid launched_state = Some 10"
    for f cs s
    by (simp add: launched_state_fields direct_check_def probe_env_def)
  have g: "getpid (probe_env 13 True [11, 12, 13] STATUS_SLEEPING) = 13"
    "psutil_children (probe_env 13 True [11, 12, 13] STATUS_SLEEPING) 13 = Inr []"
    by (simp_all add: probe_env_def)
  have 1: "is_subprocess_alive (probe_env 13 True [] STATUS_RUNNING) BackgroundMonitor_class
      = Inr (Some False)"
    using is_subprocess_alive_cases [where st = BackgroundMonitor_class
        and env = "probe_env 13 True [] STATUS_RUNNING"]
    by (simp add: BackgroundMonitor_class_def)
  have 2: "is_subprocess_alive (probe_env 13 False [] STATUS_RUNNING) launched_state = Inr None"
    using is_subprocess_alive_cases [where st = launched_state
        and env = "probe_env 13 False [] STATUS_RUNNING" and p = ?p and e = AssertionError
        and q = 10 and e' = NoSuchProcess] raised [of False "[]" STATUS_RUNNING]
    by (simp add: probe_env_def)
  have 3: "is_subprocess_alive (probe_env 13 True [11, 12, 13] STATUS_SLEEPING) launched_state
      = Inr (Some True)"
    using is_subprocess_alive_cases [where st = launched_state
        and env = "probe_env 13 True [11, 12, 13] STATUS_SLEEPING" and p = ?p
        and e = AssertionError and q = 10 and children = "[11, 12, 13]" and s = STATUS_SLEEPING]
      raised [of True "[11, 12, 13]" STATUS_SLEEPING]
    by (simp add: probe_env_def)
  have 4: "is_subprocess_alive (probe_env 13 True [11, 12, 13] STATUS_ZOMBIE) launched_state
      = Inr (Some False)"
    using is_subprocess_alive_cases [where st = launched_state
        and env = "probe_env 13 True [11, 12, 13] STATUS_ZOMBIE" and p = ?p
        and e = AssertionError and q = 10 and children = "[11, 12, 13]" and s = STATUS_ZOMBIE]
      raised [of True "[11, 12, 13]" STATUS_ZOMBIE]
    by (simp add: probe_env_def)
  have 5: "is_subprocess_alive (probe_env 13 True [11, 13] STATUS_RUNNING) launched_state
      = Inr (Some False)"
    using is_subprocess_alive_cases [where st = launched_state
        and env = "probe_env 13 True [11, 13] STATUS_RUNNING" and p = ?p
        and e = AssertionError and q = 10 and children = "[11, 13]"]
      raised [of True "[11, 13]" STATUS_RUNNING]
    by (simp add: probe_env_def)
  from g launched_state_fields(2) 1 2 3 4 5 show ?thesis
    by (intro conjI)
qed

section \<open>The scenario states\<close>

text \<open>The scenario states, computed.\<close>

lemma registered_state_eq:
  "registered_state =
     \<lparr> main_process = None, parent_pid = None, sub_process_started = None, instances = [0],
       heap = (\<lambda>_. BackgroundMonitor_init 0 0)(0 := (BackgroundMonitor_init 10 5)\<lparr> w_thread := Placeholder \<rparr>),
       forked = [], next_thread = 0 \<rparr>"
  by (simp add: registered_state_def start_def BackgroundMonitor_class_def upd_def Let_def
        BackgroundMonitor_init_def new_event_def ev_clear_def fun_eq_iff)

lemma thread_mode_state_eq:
  "thread_mode_state =
     \<lparr> main_process = None, parent_pid = None, sub_process_started = None, instances = [0],
       heap = (\<lambda>_. BackgroundMonitor_init 0 0)(0 := (BackgroundMonitor_init 10 5)\<lparr> w_thread := Thread 0 \<rparr>),
       forked = [], next_thread = 1 \<rparr>"
  by (simp add: thread_mode_state_def registered_state_eq start_all_def start_thread_def upd_def
        fun_eq_iff)

lemma subprocess_mode_state_eq:
  "subprocess_mode_state =
     \<lparr> main_process = Some \<lparr> proc_pid = 12, proc_daemon = True \<rparr>, parent_pid = Some 10,
       sub_process_started = Some \<lparr> kind = PrEvent, is_set = True \<rparr>, instances = [0],
       heap = (\<lambda>_. BackgroundMonitor_init 0 0)
         (0 := \<lparr> w_event = new_event PrEvent, w_done_ev = new_event PrEvent,
                 w_start_ev = \<lparr> kind = PrEvent, is_set = True \<rparr>, w_task_pid = 10,
                 w_thread = Placeholder, w_wait_timeout = 5, w_subprocess = Some True \<rparr>),
       forked = [\<lparr> proc_pid = 12, proc_daemon = True \<rparr>], next_thread = 0 \<rparr>"
  by (simp add: subprocess_mode_state_def registered_state_eq start_all_def set_subprocess_mode_def
        upd_def thread_env_def Let_def ev_set_def ev_clear_def new_event_def
        BackgroundMonitor_init_def fun_eq_iff)

section \<open>\<open>stop\<close>: proofs\<close>

text \<open>
  What \<open>stop\<close> does: nothing for a watcher that was never started; otherwise it sets the
  stop signal exactly when \<open>is_subprocess_alive\<close> answers \<^verbatim>\<open>True\<close>, and a watcher
  holding a \<^verbatim>\<open>Thread\<close> object is taken off the instance list and loses its handle.
\<close>

lemma stop_never_started:
  "w_thread (heap st self) = NoThread \<Longrightarrow> stop env self st = Inr st"
  by (simp add: stop_def)

lemma stop_started:
  assumes "truthy (w_thread (heap st self))" and "is_subprocess_alive env st = Inr alive"
  shows "\<exists>st'. stop env self st = Inr st'
     \<and> is_set (w_event (heap st' self)) = (is_set (w_event (heap st self)) \<or> alive = Some True)
     \<and> (isinstance_Thread (w_thread (heap st self)) \<longrightarrow>
           instances st' = remove1 self (instances st) \<and> w_thread (heap st' self) = NoThread)
     \<and> (\<not> isinstance_Thread (w_thread (heap st self)) \<longrightarrow>
           instances st' = instances st \<and> w_thread (heap st' self) = w_thread (heap st self))"
  using assms by (auto simp: stop_def upd_def ev_set_def Let_def)

text \<open>
  Line 129 asks only for the shared subprocess. In a process that never launched one,
  \<open>stop\<close> therefore leaves the stop signal as it was, whatever the watcher's thread does.
\<close>

lemma stop_without_subprocess:
  assumes "main_process st = None" and "stop env self st = Inr st'"
  shows "w_event (heap st' self) = w_event (heap st self)"
  using assms
  by (auto simp: stop_def is_subprocess_alive_def upd_def Let_def split: if_splits)

text \<open>
  C1, at a thread-mode watcher. Watcher 0 was registered, started and launched by
  \<open>start_all(False)\<close>; its thread is alive and \<open>is_alive\<close> says so. \<open>stop\<close> returns with
  the watcher removed from the instance list and its handle dropped, but the stop signal is
  still unset: the thread keeps polling and the done signal is never set.
\<close>

theorem stop_thread_mode_not_signalled:
  "is_alive thread_env 0 thread_mode_state = Inr (Some True)
   \<and> \<not> is_set (w_event (heap thread_mode_state 0))
   \<and> map_sum id (\<lambda>st'. (is_set (w_event (heap st' 0)), w_thread (heap st' 0), instances st'))
        (stop thread_env 0 thread_mode_state)
      = Inr (False, NoThread, [])"
  by (simp add: is_alive_def is_subprocess_def stop_def is_subprocess_alive_def
        thread_mode_state_eq thread_env_def upd_def BackgroundMonitor_init_def new_event_def)

section \<open>\<open>start_all\<close>: proofs\<close>

lemma set_subprocess_mode_fields:
  "main_process (set_subprocess_mode self st) = main_process st"
  "forked (set_subprocess_mode self st) = forked st"
  by (simp_all add: set_subprocess_mode_def upd_def)

lemma fold_set_subprocess_mode_fields:
  "main_process (fold set_subprocess_mode xs st) = main_process st
   \<and> forked (fold set_subprocess_mode xs st) = forked st"
  by (induction xs arbitrary: st) (simp_all add: set_subprocess_mode_fields)

lemma start_all_noop:
  "main_process st \<noteq> None \<Longrightarrow> start_all env True wait_for_subprocess st = (st, Returned)"
  by (cases "main_process st") (simp_all add: start_all_def)

lemma start_all_calls_noop:
  "main_process st \<noteq> None \<Longrightarrow> start_all_calls calls st = (st, Returned)"
  by (induction calls) (simp_all add: start_all_noop)

lemma start_all_launch:
  assumes "main_process st = None"
  shows "main_process (fst (start_all env True wait_for_subprocess st))
           = Some \<lparr> proc_pid = new_pid env, proc_daemon = True \<rparr>
     \<and> forked (fst (start_all env True wait_for_subprocess st))
           = forked st @ [\<lparr> proc_pid = new_pid env, proc_daemon = True \<rparr>]"
  using assms by (simp add: start_all_def Let_def fold_set_subprocess_mode_fields)

lemma start_all_calls_forked:
  "length (forked (fst (start_all_calls calls st)))
     \<le> length (forked st) + (if main_process st = None then 1 else 0)"
proof (cases "main_process st = None")
  case False
  then show ?thesis by (simp add: start_all_calls_noop)
next
  case True
  show ?thesis
  proof (cases calls)
    case Nil
    then show ?thesis by simp
  next
    case (Cons c cs)
    obtain st' out where r: "start_all (fst c) True (snd c) st = (st', out)"
      by (cases "start_all (fst c) True (snd c) st")
    from start_all_launch [OF True, of "fst c" "snd c"] r
    have m: "main_process st' \<noteq> None" and f: "length (forked st') = Suc (length (forked st))"
      by simp_all
    show ?thesis
    proof (cases out)
      case Returned
      with Cons r have "start_all_calls calls st = start_all_calls cs st'" by simp
      also have "\<dots> = (st', Returned)" by (rule start_all_calls_noop [OF m])
      finally show ?thesis using f True by simp
    next
      case Blocked
      with Cons r have "start_all_calls calls st = (st', Blocked)" by simp
      then show ?thesis using f True by simp
    qed
  qed
qed

lemma upd_fields:
  "main_process (upd self f st) = main_process st"
  "forked (upd self f st) = forked st"
  "instances (upd self f st) = instances st"
  by (simp_all add: upd_def)

lemma start_fields:
  "main_process (start self st) = main_process st \<and> forked (start self st) = forked st"
  by (simp add: start_def Let_def upd_fields)

lemma stop_fields:
  "stop env self st = Inr st' \<Longrightarrow> main_process st' = main_process st \<and> forked st' = forked st"
  by (auto simp: stop_def Let_def upd_fields split: if_splits sum.splits)

lemma start_thread_fields:
  "main_process (start_thread self st) = main_process st"
  "forked (start_thread self st) = forked st"
  by (simp_all add: start_thread_def upd_fields)

lemma fold_start_thread_fields:
  "main_process (fold start_thread xs st) = main_process st
   \<and> forked (fold start_thread xs st) = forked st"
  by (induction xs arbitrary: st) (simp_all add: start_thread_fields)

lemma start_all_threads_fields:
  "main_process (fst (start_all env False w st)) = main_process st
   \<and> forked (fst (start_all env False w st)) = forked st"
  by (simp add: start_all_def fold_start_thread_fields)

lemma bm_step_handle:
  "(main_process (fst (bm_step env c st)) = main_process st
      \<and> forked (fst (bm_step env c st)) = forked st)
   \<or> (main_process st = None \<and> main_process (fst (bm_step env c st)) \<noteq> None
      \<and> length (forked (fst (bm_step env c st))) = Suc (length (forked st)))"
proof (cases c)
  case (Start self)
  then show ?thesis by (simp add: start_fields)
next
  case (Stop self)
  then show ?thesis
    by (cases "stop env self st") (auto dest: stop_fields)
next
  case (StartAll sub w)
  show ?thesis
  proof (cases sub)
    case False
    with StartAll show ?thesis by (simp add: start_all_threads_fields)
  next
    case True
    show ?thesis
    proof (cases "main_process st = None")
      case no_handle: True
      from start_all_launch [OF no_handle, of env w] StartAll \<open>sub\<close> no_handle
      show ?thesis by simp
    next
      case False
      with StartAll \<open>sub\<close> show ?thesis by (simp add: start_all_noop)
    qed
  qed
qed

lemma bm_run_handle_kept:
  "main_process st \<noteq> None \<Longrightarrow>
   main_process (bm_run cs st) = main_process st \<and> forked (bm_run cs st) = forked st"
proof (induction cs arbitrary: st)
  case Nil
  then show ?case by simp
next
  case (Cons c cs)
  obtain st' out where s: "bm_step (fst c) (snd c) st = (st', out)"
    by (cases "bm_step (fst c) (snd c) st")
  from bm_step_handle [of "fst c" "snd c" st] s Cons.prems
  have k: "main_process st' = main_process st" "forked st' = forked st" by auto
  show ?case
  proof (cases out)
    case Returned
    with s Cons.IH [of st'] k Cons.prems show ?thesis by simp
  next
    case Blocked
    with s k show ?thesis by simp
  qed
qed

lemma bm_run_forked:
  "length (forked (bm_run cs st))
     \<le> length (forked st) + (if main_process st = None then 1 else 0)"
proof (induction cs arbitrary: st)
  case Nil
  then show ?case by simp
next
  case (Cons c cs)
  obtain st' out where s: "bm_step (fst c) (snd c) st = (st', out)"
    by (cases "bm_step (fst c) (snd c) st")
  from bm_step_handle [of "fst c" "snd c" st] s
  consider "main_process st' = main_process st" "forked st' = forked st"
    | "main_process st = None" "main_process st' \<noteq> None"
      "length (forked st') = Suc (length (forked st))"
    by auto
  then have b: "length (forked st') + (if main_process st' = None then 1 else 0)
       \<le> length (forked st) + (if main_process st = None then 1 else 0)"
    by cases auto
  show ?case
  proof (cases out)
    case Returned
    with s have "bm_run (c # cs) st = bm_run cs st'" by simp
    with Cons.IH [of st'] b show ?thesis by simp
  next
    case Blocked
    with s have "bm_run (c # cs) st = st'" by simp
    with b show ?thesis by (simp split: if_splits)
  qed
qed

text \<open>
  C3. Once a subprocess handle exists, \<open>start_all(True, w)\<close> returns at once and leaves the
  whole state as it is, and so does any sequence of such calls. From any state, a sequence
  of \<open>start_all(True, w)\<close> calls launches at most one worker, and none when a handle
  exists; from the class as defined, at most one worker is ever launched. The same holds
  for any sequence of \<open>start\<close>, \<open>stop\<close> and \<open>start_all\<close> calls with any arguments: a handle,
  once there, is never replaced, and at most one worker is launched.
\<close>

theorem start_all_subprocess_once:
  "(main_process st \<noteq> None \<longrightarrow>
      start_all env True wait_for_subprocess st = (st, Returned)
      \<and> start_all_calls calls st = (st, Returned)
      \<and> main_process (bm_run any_calls st) = main_process st
      \<and> forked (bm_run any_calls st) = forked st)
   \<and> length (forked (fst (start_all_calls calls st)))
        \<le> length (forked st) + (if main_process st = None then 1 else 0)
   \<and> length (forked (bm_run any_calls st))
        \<le> length (forked st) + (if main_process st = None then 1 else 0)
   \<and> length (forked (fst (start_all_calls calls BackgroundMonitor_class))) \<le> 1
   \<and> length (forked (bm_run any_calls BackgroundMonitor_class)) \<le> 1"
proof (intro conjI impI)
  assume "main_process st \<noteq> None"
  then show "start_all env True wait_for_subprocess st = (st, Returned)"
    by (rule start_all_noop)
next
  assume "main_process st \<noteq> None"
  then show "start_all_calls calls st = (st, Returned)"
    by (rule start_all_calls_noop)
next
  assume "main_process st \<noteq> None"
  then show "main_process (bm_run any_calls st) = main_process st"
    by (simp add: bm_run_handle_kept)
next
  assume "main_process st \<noteq> None"
  then show "forked (bm_run any_calls st) = forked st"
    by (simp add: bm_run_handle_kept)
next
  show "length (forked (fst (start_all_calls calls st)))
        \<le> length (forked st) + (if main_process st = None then 1 else 0)"
    by (rule start_all_calls_forked)
next
  show "length (forked (bm_run any_calls st))
        \<le> length (forked st) + (if main_process st = None then 1 else 0)"
    by (rule bm_run_forked)
next
  from start_all_calls_forked [of calls BackgroundMonitor_class]
  show "length (forked (fst (start_all_calls calls BackgroundMonitor_class))) \<le> 1"
    by (simp add: BackgroundMonitor_class_def)
next
  from bm_run_forked [of any_calls BackgroundMonitor_class]
  show "length (forked (bm_run any_calls BackgroundMonitor_class)) \<le> 1"
    by (simp add: BackgroundMonitor_class_def)
qed

text \<open>
  A state with a handle, where further calls change nothing; and three calls from the
  class as defined, which launch the worker 12 and no other.
\<close>

theorem start_all_subprocess_once_witness:
  "main_process subprocess_mode_state \<noteq> None
   \<and> start_all thread_env True True subprocess_mode_state = (subprocess_mode_state, Returned)
   \<and> start_all_calls [(thread_env, False), (thread_env, True)] subprocess_mode_state
       = (subprocess_mode_state, Returned)
   \<and> forked (bm_run [(thread_env, Stop 0), (thread_env, StartAll True True),
         (thread_env, Start 0), (thread_env, StartAll False False)] subprocess_mode_state)
       = forked subprocess_mode_state
   \<and> forked (fst (start_all_calls [(thread_env, True), (thread_env, False), (thread_env, True)]
         BackgroundMonitor_class)) = [\<lparr> proc_pid = 12, proc_daemon = True \<rparr>]"
proof -
  have m: "main_process subprocess_mode_state \<noteq> None"
    by (simp add: subprocess_mode_state_eq)
  have f: "forked (fst (start_all_calls [(thread_env, True), (thread_env, False), (thread_env, True)]
         BackgroundMonitor_class)) = [\<lparr> proc_pid = 12, proc_daemon = True \<rparr>]"
    by (simp add: start_all_def BackgroundMonitor_class_def thread_env_def Let_def)
  from start_all_subprocess_once [where st = subprocess_mode_state and env = thread_env
      and wait_for_subprocess = True and calls = "[(thread_env, False), (thread_env, True)]"
      and any_calls = "[(thread_env, Stop 0), (thread_env, StartAll True True),
         (thread_env, Start 0), (thread_env, StartAll False False)]"] m f
  show ?thesis by blast
qed

section \<open>\<open>is_alive\<close>: proofs\<close>

lemma set_subprocess_mode_flag:
  "w_subprocess (heap (set_subprocess_mode other st) self)
     = (if self = other then Some True else w_subprocess (heap st self))"
  by (simp add: set_subprocess_mode_def upd_def)

lemma fold_set_subprocess_mode_flag:
  "w_subprocess (heap (fold set_subprocess_mode xs st) self)
     = (if self \<in> set xs then Some True else w_subprocess (heap st self))"
  by (induction xs arbitrary: st) (auto simp: set_subprocess_mode_flag)

lemma start_all_subprocess_flag:
  assumes "main_process st = None" and "self \<in> set (instances st)"
  shows "w_subprocess (heap (fst (start_all env True wait_for_subprocess st)) self) = Some True"
  using assms
  by (simp add: start_all_def Let_def fold_set_subprocess_mode_flag)

lemma fold_start_thread_flag:
  "w_subprocess (heap (fold start_thread xs st) self) = w_subprocess (heap st self)"
  by (induction xs arbitrary: st) (simp_all add: start_thread_def upd_def)

lemma start_all_threads_flag:
  "w_subprocess (heap (fst (start_all env False wait_for_subprocess st)) self)
     = w_subprocess (heap st self)"
  by (simp add: start_all_def fold_start_thread_flag)

lemma late_state_eq:
  "late_state =
     \<lparr> main_process = Some \<lparr> proc_pid = 12, proc_daemon = True \<rparr>, parent_pid = Some 10,
       sub_process_started = Some \<lparr> kind = PrEvent, is_set = False \<rparr>, instances = [0],
       heap = (\<lambda>_. BackgroundMonitor_init 0 0)
         (0 := (BackgroundMonitor_init 10 5)\<lparr> w_thread := Thread 0 \<rparr>),
       forked = [\<lparr> proc_pid = 12, proc_daemon = True \<rparr>], next_thread = 1 \<rparr>"
  by (simp add: late_state_def start_all_def start_def start_thread_def upd_def Let_def
        BackgroundMonitor_class_def thread_env_def BackgroundMonitor_init_def new_event_def
        ev_clear_def fun_eq_iff)

text \<open>
  A watcher in thread mode (its \<^verbatim>\<open>_subprocess\<close> is \<^verbatim>\<open>None\<close>) whose handle is a
  \<^verbatim>\<open>Thread\<close> object and whose thread is alive, in a registry whose worker has exited:
  \<open>is_alive\<close> returns \<^verbatim>\<open>False\<close>.
\<close>

theorem is_alive_thread_mode_counterexample:
  "w_subprocess (heap late_state 0) = None
   \<and> w_thread (heap late_state 0) = Thread 0
   \<and> thread_is_alive dead_worker_env 0
   \<and> is_alive dead_worker_env 0 late_state = Inr (Some False)"
  by (simp add: late_state_eq dead_worker_env_def thread_env_def is_alive_def is_subprocess_def
        is_subprocess_alive_def direct_check_def BackgroundMonitor_init_def)

text \<open>
  C5, amended. \<open>is_alive\<close> takes the mode from the registry, not from the watcher. Once a
  worker has been launched (\<open>is_subprocess\<close>), it returns \<^verbatim>\<open>True\<close>, for every watcher,
  exactly when \<open>is_subprocess_alive\<close> returns \<^verbatim>\<open>True\<close>, the started signal is set and the
  done signal is not. While no worker has been launched, it returns \<^verbatim>\<open>True\<close> exactly
  when \<^verbatim>\<open>_thread\<close> holds a \<^verbatim>\<open>Thread\<close> object and that thread is alive. The two modes
  agree for the watchers registered before the launch: \<open>start_all(True)\<close> switches each of
  them to subprocess mode in the call that creates the worker, and \<open>start_all(False)\<close>
  changes neither the watcher's mode nor the registry's.
\<close>

theorem is_alive_registry_mode:
  "(is_subprocess st \<longrightarrow>
      (is_alive env self st = Inr (Some True)) =
        (is_subprocess_alive env st = Inr (Some True)
         \<and> is_set (w_start_ev (heap st self)) \<and> \<not> is_set (w_done_ev (heap st self))))
   \<and> (\<not> is_subprocess st \<longrightarrow>
      (is_alive env self st = Inr (Some True)) =
        (\<exists>t. w_thread (heap st self) = Thread t \<and> thread_is_alive env t))
   \<and> (\<not> is_subprocess st \<and> self \<in> set (instances st) \<longrightarrow>
        is_subprocess (fst (start_all env True wait_for_subprocess st))
        \<and> w_subprocess (heap (fst (start_all env True wait_for_subprocess st)) self) = Some True)
   \<and> is_subprocess (fst (start_all env False wait_for_subprocess st)) = is_subprocess st
   \<and> w_subprocess (heap (fst (start_all env False wait_for_subprocess st)) self)
        = w_subprocess (heap st self)"
proof (intro conjI impI)
  assume "is_subprocess st"
  then show "(is_alive env self st = Inr (Some True)) =
        (is_subprocess_alive env st = Inr (Some True)
         \<and> is_set (w_start_ev (heap st self)) \<and> \<not> is_set (w_done_ev (heap st self)))"
    by (cases "is_subprocess_alive env st") (auto simp: is_alive_def)
next
  assume "\<not> is_subprocess st"
  then show "(is_alive env self st = Inr (Some True)) =
        (\<exists>t. w_thread (heap st self) = Thread t \<and> thread_is_alive env t)"
    by (cases "w_thread (heap st self)") (auto simp: is_alive_def)
next
  assume "\<not> is_subprocess st \<and> self \<in> set (instances st)"
  then have "main_process st = None"
    by (simp add: is_subprocess_def)
  from start_all_launch [OF this, of env wait_for_subprocess]
  show "is_subprocess (fst (start_all env True wait_for_subprocess st))"
    by (simp add: is_subprocess_def)
next
  assume a: "\<not> is_subprocess st \<and> self \<in> set (instances st)"
  then have "main_process st = None"
    by (simp add: is_subprocess_def)
  with a show "w_subprocess (heap (fst (start_all env True wait_for_subprocess st)) self) = Some True"
    by (simp add: start_all_subprocess_flag)
next
  show "is_subprocess (fst (start_all env False wait_for_subprocess st)) = is_subprocess st"
    by (simp add: is_subprocess_def start_all_threads_fields)
next
  show "w_subprocess (heap (fst (start_all env False wait_for_subprocess st)) self)
        = w_subprocess (heap st self)"
    by (rule start_all_threads_flag)
qed

text \<open>
  Both modes, each with a watcher that is alive and whose own mode is the registry's; and
  the launch that switches the registered watcher 0.
\<close>

theorem is_alive_registry_mode_witness:
  "is_subprocess subprocess_mode_state
   \<and> w_subprocess (heap subprocess_mode_state 0) = Some True
   \<and> is_subprocess_alive thread_env subprocess_mode_state = Inr (Some True)
   \<and> is_set (w_start_ev (heap subprocess_mode_state 0))
   \<and> \<not> is_set (w_done_ev (heap subprocess_mode_state 0))
   \<and> is_alive thread_env 0 subprocess_mode_state = Inr (Some True)
   \<and> \<not> is_subprocess thread_mode_state
   \<and> w_subprocess (heap thread_mode_state 0) = None
   \<and> w_thread (heap thread_mode_state 0) = Thread 0 \<and> thread_is_alive thread_env 0
   \<and> is_alive thread_env 0 thread_mode_state = Inr (Some True)
   \<and> \<not> is_subprocess registered_state \<and> 0 \<in> set (instances registered_state)
   \<and> is_subprocess (fst (start_all thread_env True True registered_state))
   \<and> w_subprocess (heap (fst (start_all thread_env True True registered_state)) 0) = Some True"
proof -
  have s: "is_subprocess subprocess_mode_state"
    by (simp add: is_subprocess_def subprocess_mode_state_eq)
  have sm: "w_subprocess (heap subprocess_mode_state 0) = Some True"
    by (simp add: subprocess_mode_state_eq)
  have a: "is_subprocess_alive thread_env subprocess_mode_state = Inr (Some True)"
    by (simp add: is_subprocess_alive_def direct_check_def subprocess_mode_state_eq thread_env_def)
  have e: "is_set (w_start_ev (heap subprocess_mode_state 0))"
    "\<not> is_set (w_done_ev (heap subprocess_mode_state 0))"
    by (simp_all add: subprocess_mode_state_eq new_event_def)
  have t: "\<not> is_subprocess thread_mode_state"
    by (simp add: is_subprocess_def thread_mode_state_eq)
  have tm: "w_subprocess (heap thread_mode_state 0) = None"
    by (simp add: thread_mode_state_eq BackgroundMonitor_init_def)
  have h: "w_thread (heap thread_mode_state 0) = Thread 0" "thread_is_alive thread_env 0"
    by (simp_all add: thread_mode_state_eq thread_env_def)
  have r: "\<not> is_subprocess registered_state" "0 \<in> set (instances registered_state)"
    by (simp_all add: is_subprocess_def registered_state_eq)
  from is_alive_registry_mode [where st = subprocess_mode_state and env = thread_env
      and self = 0] s a e
  have 1: "is_alive thread_env 0 subprocess_mode_state = Inr (Some True)"
    by blast
  from is_alive_registry_mode [where st = thread_mode_state and env = thread_env and self = 0]
    t h
  have 2: "is_alive thread_env 0 thread_mode_state = Inr (Some True)"
    by blast
  from is_alive_registry_mode [where st = registered_state and env = thread_env and self = 0
      and wait_for_subprocess = True] r
  have 3: "is_subprocess (fst (start_all thread_env True True registered_state))"
    "w_subprocess (heap (fst (start_all thread_env True True registered_state)) 0) = Some True"
    by blast+
  from s sm a e 1 t tm h 2 r 3 show ?thesis
    by (intro conjI)
qed

section \<open>\<open>SingletonLock\<close>: proofs\<close>

lemma create_idem: "create self (create self st) = create self st"
  by (simp add: create_def split: option.splits)

lemma create_funpow: "(create self ^^ Suc n) st = create self st"
  by (induction n) (simp_all add: create_idem)

lemma create_allocates:
  "os_allocated (create self st) = os_allocated st + (if sl_lock st self = None then 1 else 0)"
  by (simp add: create_def split: option.splits)

lemma create_keeps:
  "sl_lock st self = Some l \<Longrightarrow> sl_lock (create other st) self = Some l"
  by (auto simp: create_def split: option.splits)

lemma fold_create_keeps:
  "sl_lock st self = Some l \<Longrightarrow> sl_lock (fold create xs st) self = Some l"
  by (induction xs arbitrary: st) (simp_all add: create_keeps)

lemma sl_run_keeps:
  "sl_lock st self = Some l \<Longrightarrow> sl_lock (sl_run calls st) self = Some l"
proof (induction calls st rule: sl_run.induct)
  case (1 st)
  then show ?case by simp
next
  case (2 other cs st)
  then show ?case by (simp add: create_keeps)
next
  case (3 cs st)
  then show ?case by (simp add: instantiate_def fold_create_keeps)
qed

lemma create_lock_free: "lock_free st self \<Longrightarrow> lock_free (create self st) self"
  by (auto simp: lock_free_def create_def split: option.splits)

lemma create_Some: "\<exists>l. sl_lock (create self st) self = Some l"
  by (simp add: create_def split: option.splits)

lemma acquire_release_created:
  assumes "sl_lock st self = Some l" and "\<not> os_held st l"
  shows "acquire True self st = (st\<lparr> os_held := (os_held st)(l := True) \<rparr>, Return True)"
    and "release self (st\<lparr> os_held := (os_held st)(l := True) \<rparr>) = (st, Return ())"
  using assms by (simp_all add: acquire_def release_def create_def fun_upd_idem)

text \<open>
  C9. Any number of \<open>create\<close> calls on an instance does what one call does: the state is
  the same, and over all of them \<^verbatim>\<open>Lock()\<close> is called once if the instance had no lock
  and not at all if it had one. After a \<open>create\<close>, no sequence of further \<open>create\<close> and
  \<open>instantiate\<close> calls (the registry's way to call \<open>create\<close> on every instance, as after
  a fork) gives the instance another lock. And after repeated \<open>create\<close> calls a blocking
  \<open>acquire\<close> succeeds, the \<open>release\<close> that follows succeeds and leaves the state one
  \<open>create\<close> produced, so that the next \<open>acquire\<close> succeeds as well.
\<close>

theorem create_idempotent:
  "(create self ^^ Suc n) st = create self st
   \<and> os_allocated ((create self ^^ Suc n) st)
        = os_allocated st + (if sl_lock st self = None then 1 else 0)
   \<and> sl_lock (sl_run calls (create self st)) self = sl_lock (create self st) self
   \<and> (lock_free st self \<longrightarrow>
        (\<exists>held. acquire True self ((create self ^^ Suc n) st) = (held, Return True)
           \<and> release self held = (create self st, Return ())
           \<and> acquire True self (create self (create self st)) = (held, Return True)))"
proof (intro conjI impI)
  show "(create self ^^ Suc n) st = create self st"
    by (rule create_funpow)
  show "os_allocated ((create self ^^ Suc n) st)
        = os_allocated st + (if sl_lock st self = None then 1 else 0)"
    by (simp only: create_funpow create_allocates)
  obtain l where l: "sl_lock (create self st) self = Some l"
    using create_Some by blast
  show "sl_lock (sl_run calls (create self st)) self = sl_lock (create self st) self"
    by (simp only: l sl_run_keeps [OF l])
  assume "lock_free st self"
  then have "lock_free (create self st) self"
    by (rule create_lock_free)
  with l have free: "\<not> os_held (create self st) l"
    by (simp add: lock_free_def)
  let ?held = "(create self st)\<lparr> os_held := (os_held (create self st))(l := True) \<rparr>"
  have "acquire True self ((create self ^^ Suc n) st) = (?held, Return True)"
    by (simp only: create_funpow acquire_release_created(1) [OF l free])
  moreover have "release self ?held = (create self st, Return ())"
    by (rule acquire_release_created(2) [OF l free])
  moreover have "acquire True self (create self (create self st)) = (?held, Return True)"
    by (simp only: create_idem acquire_release_created(1) [OF l free])
  ultimately show "\<exists>held. acquire True self ((create self ^^ Suc n) st) = (held, Return True)
           \<and> release self held = (create self st, Return ())
           \<and> acquire True self (create self (create self st)) = (held, Return True)"
    by blast
qed

text \<open>One declared lock: three \<open>create\<close> calls, one allocation; then acquire and release.\<close>

lemma one_lock_eq:
  "one_lock = \<lparr> sl_instances = [0], sl_lock = (\<lambda>_. None), os_held = (\<lambda>_. False), os_allocated = 0 \<rparr>"
  by (simp add: one_lock_def SingletonLock_init_def SingletonLock_class_def fun_eq_iff)

lemma create_one_lock:
  "create 0 one_lock =
     \<lparr> sl_instances = [0], sl_lock = (\<lambda>_. None)(0 := Some 0), os_held = (\<lambda>_. False),
       os_allocated = 1 \<rparr>"
  by (simp add: one_lock_eq create_def fun_eq_iff)

theorem create_idempotent_witness:
  "lock_free one_lock 0
   \<and> create 0 (create 0 (create 0 one_lock)) = create 0 one_lock
   \<and> os_allocated (create 0 (create 0 (create 0 one_lock))) = 1
   \<and> sl_lock (sl_run [Instantiate, Create 0, Instantiate] (create 0 one_lock)) 0 = Some 0
   \<and> (\<exists>held. acquire True 0 (create 0 (create 0 (create 0 one_lock))) = (held, Return True)
         \<and> release 0 held = (create 0 one_lock, Return ()))"
proof -
  have f: "lock_free one_lock 0"
    by (simp add: lock_free_def one_lock_eq)
  have n: "(create 0 ^^ Suc 2) one_lock = create 0 (create 0 (create 0 one_lock))"
    by (simp add: numeral_2_eq_2)
  have a: "os_allocated one_lock + (if sl_lock one_lock 0 = None then 1 else 0) = 1"
    by (simp add: one_lock_eq)
  have s: "sl_lock (create 0 one_lock) 0 = Some 0"
    by (simp add: create_one_lock)
  from create_idempotent [where self = 0 and n = 2 and st = one_lock
      and calls = "[Instantiate, Create 0, Instantiate]"] f
  show ?thesis
    unfolding n a s by blast
qed

text \<open>
  Entering acquires the lock; leaving releases it, with or without an exception in
  flight. But with one in flight \<open>__exit__\<close> raises \<^verbatim>\<open>TypeError\<close>, and that is what the
  caller of the \<^verbatim>\<open>with\<close> statement gets, whatever the body raised.
\<close>

lemma enter_acquires:
  assumes "lock_free st self"
  shows "\<exists>st' l. enter self st = (st', Return ()) \<and> sl_lock st' self = Some l \<and> os_held st' l"
proof -
  obtain l where l: "sl_lock (create self st) self = Some l"
    using create_Some by blast
  from create_lock_free [OF assms] l have "\<not> os_held (create self st) l"
    by (simp add: lock_free_def)
  with l show ?thesis
    by (simp add: enter_def acquire_def Let_def)
qed

lemma exit_releases:
  assumes "sl_lock st self = Some l" and "os_held st l"
  shows "exit self exc st =
     (st\<lparr> os_held := (os_held st)(l := False) \<rparr>,
      if exc = None then Return () else Raise TypeError)"
  using assms by (simp add: exit_def release_def)

lemma with_stmt_raising_body:
  assumes "lock_free st self"
  shows "\<exists>st'. with_stmt self (\<lambda>s. (s, Raise e)) st = (st', Raise TypeError) \<and> lock_free st' self"
proof -
  from enter_acquires [OF assms] obtain st1 l where
    e: "enter self st = (st1, Return ())" and l: "sl_lock st1 self = Some l" and h: "os_held st1 l"
    by blast
  from exit_releases [OF l h, of "Some e"] e l
  show ?thesis
    by (simp add: with_stmt_def lock_free_def)
qed

text \<open>
  C8, at a body that raises \<^verbatim>\<open>ValueError\<close>. The lock is acquired and released, as it
  is for a body that returns, but the caller gets \<^verbatim>\<open>TypeError\<close>: the error in flight
  is not the one raised again.
\<close>

theorem with_stmt_error_not_reraised:
  "with_stmt 0 (\<lambda>s. (s, Raise ValueError)) one_lock = (create 0 one_lock, Raise TypeError)
   \<and> lock_free (create 0 one_lock) 0
   \<and> with_stmt 0 (\<lambda>s. (s, Return ())) one_lock = (create 0 one_lock, Return ())"
  by (simp add: with_stmt_def enter_def exit_def acquire_def release_def one_lock_eq
        lock_free_def create_def Let_def fun_eq_iff)

section \<open>\<open>SafeQueue\<close>: proofs\<close>

lemma quiescent_constructed: "quiescent st \<Longrightarrow> constructed st"
  by (simp add: quiescent_def constructed_def)

lemma put_quiescent:
  assumes "quiescent st"
  shows "\<exists>st'. put pid self obj st = (st', Return ())
       \<and> sq_thread_pool_pid st' = Some pid
       \<and> sq_lock st' = Some False
       \<and> sq_q st' = sq_q st
       \<and> (if Some pid = sq_thread_pool_pid st
           then sq_thread_pool st' = Some (pending st @ [(self, obj)])
              \<and> sq_log st' = sq_log st @ [Dispatched self]
           else sq_thread_pool st' = Some [(self, obj)]
              \<and> sq_log st' = sq_log st
                   @ [LockAcquired, PoolCreated pid, LockReleased, Dispatched self])"
proof -
  from assms obtain tasks where l: "sq_lock st = Some False" and t: "sq_thread_pool st = Some tasks"
    by (auto simp: quiescent_def)
  show ?thesis
  proof (cases "Some pid = sq_thread_pool_pid st")
    case True
    then have "sq_thread_pool_pid st = Some pid" by simp
    then show ?thesis
      using l t by (simp add: put_def apply_async_def pending_def)
  next
    case False
    then show ?thesis
      using l t by (simp add: put_def with_lock_def new_pool_def apply_async_def Let_def)
  qed
qed

text \<open>With the lock held by someone else, \<open>put\<close> waits if it needs the lock.\<close>

lemma put_lock_held:
  assumes "sq_lock st = Some True" and "sq_thread_pool st = Some tasks"
  shows "put pid self obj st =
     (if Some pid = sq_thread_pool_pid st
      then (st\<lparr> sq_thread_pool := Some (tasks @ [(self, obj)]),
                sq_log := sq_log st @ [Dispatched self] \<rparr>, Return ())
      else (st, Block))"
  using assms by (simp add: put_def with_lock_def apply_async_def)

lemma put_reply:
  assumes "constructed st"
  shows "(\<forall>e. snd (put pid self obj st) \<noteq> Raise e)
     \<and> (snd (put pid self obj st) = Return () \<longrightarrow>
          sq_thread_pool_pid (fst (put pid self obj st)) = Some pid)
     \<and> (snd (put pid self obj st) = Block \<longrightarrow>
          sq_lock st = Some True \<and> Some pid \<noteq> sq_thread_pool_pid st)"
proof -
  from assms obtain held tasks where l: "sq_lock st = Some held"
    and t: "sq_thread_pool st = Some tasks"
    by (auto simp: constructed_def)
  show ?thesis
  proof (cases held)
    case True
    with l have h: "sq_lock st = Some True" by simp
    show ?thesis
      unfolding put_lock_held [OF h t] using h by auto
  next
    case False
    with l t have "quiescent st" by (simp add: quiescent_def)
    from put_quiescent [OF this, of pid self obj] show ?thesis by auto
  qed
qed

text \<open>
  C6. Once a \<open>SafeQueue\<close> has been constructed, \<open>put\<close> never raises; when it returns, the
  pool belongs to the calling process; and it fails to return only if it needs the class
  lock while somebody else holds it. With the lock free it returns, and when the caller's
  pid differed from the pool's the log shows the order: the lock is acquired, the pool is
  created for the caller's pid, the lock is released, and only then is the object handed to
  the (new) pool, whose only task it is. Otherwise the object is appended to the tasks of
  the pool there is, and the lock is not touched.
\<close>

theorem put_rebinds_worker:
  "constructed st \<longrightarrow>
     (\<forall>e. snd (put pid self obj st) \<noteq> Raise e)
     \<and> (snd (put pid self obj st) = Return () \<longrightarrow>
          sq_thread_pool_pid (fst (put pid self obj st)) = Some pid)
     \<and> (snd (put pid self obj st) = Block \<longrightarrow>
          sq_lock st = Some True \<and> Some pid \<noteq> sq_thread_pool_pid st)
     \<and> (sq_lock st = Some False \<longrightarrow>
          (\<exists>st'. put pid self obj st = (st', Return ())
             \<and> sq_thread_pool_pid st' = Some pid
             \<and> sq_lock st' = Some False
             \<and> sq_q st' = sq_q st
             \<and> (Some pid \<noteq> sq_thread_pool_pid st \<longrightarrow>
                  sq_thread_pool st' = Some [(self, obj)]
                  \<and> sq_log st' = sq_log st
                       @ [LockAcquired, PoolCreated pid, LockReleased, Dispatched self])
             \<and> (Some pid = sq_thread_pool_pid st \<longrightarrow>
                  sq_thread_pool st' = Some (pending st @ [(self, obj)])
                  \<and> sq_log st' = sq_log st @ [Dispatched self])))"
proof
  assume c: "constructed st"
  have "\<exists>st'. put pid self obj st = (st', Return ())
             \<and> sq_thread_pool_pid st' = Some pid
             \<and> sq_lock st' = Some False
             \<and> sq_q st' = sq_q st
             \<and> (Some pid \<noteq> sq_thread_pool_pid st \<longrightarrow>
                  sq_thread_pool st' = Some [(self, obj)]
                  \<and> sq_log st' = sq_log st
                       @ [LockAcquired, PoolCreated pid, LockReleased, Dispatched self])
             \<and> (Some pid = sq_thread_pool_pid st \<longrightarrow>
                  sq_thread_pool st' = Some (pending st @ [(self, obj)])
                  \<and> sq_log st' = sq_log st @ [Dispatched self])"
    if free: "sq_lock st = Some False"
  proof -
    from c free have "quiescent st"
      by (simp add: quiescent_def constructed_def)
    from put_quiescent [OF this, of pid self obj]
    obtain st' where p: "put pid self obj st = (st', Return ())"
      and r: "sq_thread_pool_pid st' = Some pid" "sq_lock st' = Some False" "sq_q st' = sq_q st"
      and i: "if Some pid = sq_thread_pool_pid st
           then sq_thread_pool st' = Some (pending st @ [(self, obj)])
              \<and> sq_log st' = sq_log st @ [Dispatched self]
           else sq_thread_pool st' = Some [(self, obj)]
              \<and> sq_log st' = sq_log st
                   @ [LockAcquired, PoolCreated pid, LockReleased, Dispatched self]"
      by blast
    show ?thesis
    proof (cases "Some pid = sq_thread_pool_pid st")
      case True
      with p r i show ?thesis by simp
    next
      case False
      with p r i show ?thesis by simp
    qed
  qed
  with put_reply [OF c, of pid self obj]
  show "(\<forall>e. snd (put pid self obj st) \<noteq> Raise e)
     \<and> (snd (put pid self obj st) = Return () \<longrightarrow>
          sq_thread_pool_pid (fst (put pid self obj st)) = Some pid)
     \<and> (snd (put pid self obj st) = Block \<longrightarrow>
          sq_lock st = Some True \<and> Some pid \<noteq> sq_thread_pool_pid st)
     \<and> (sq_lock st = Some False \<longrightarrow>
          (\<exists>st'. put pid self obj st = (st', Return ())
             \<and> sq_thread_pool_pid st' = Some pid
             \<and> sq_lock st' = Some False
             \<and> sq_q st' = sq_q st
             \<and> (Some pid \<noteq> sq_thread_pool_pid st \<longrightarrow>
                  sq_thread_pool st' = Some [(self, obj)]
                  \<and> sq_log st' = sq_log st
                       @ [LockAcquired, PoolCreated pid, LockReleased, Dispatched self])
             \<and> (Some pid = sq_thread_pool_pid st \<longrightarrow>
                  sq_thread_pool st' = Some (pending st @ [(self, obj)])
                  \<and> sq_log st' = sq_log st @ [Dispatched self])))"
    by blast
qed

lemma first_queue_eq:
  "first_queue pid =
     \<lparr> sq_lock = Some False, sq_thread_pool = Some [], sq_thread_pool_pid = Some pid,
       sq_q = (\<lambda>_. []), sq_log = [LockAcquired, PoolCreated pid, LockReleased] \<rparr>"
  by (simp add: first_queue_def SafeQueue_init_def SafeQueue_class_def with_lock_def new_pool_def
        Let_def fun_eq_iff)

lemma quiescent_first_queue: "quiescent (first_queue pid)"
  by (simp add: quiescent_def first_queue_eq)

text \<open>
  A queue built in process 10. Process 11, a forked child, puts 7: the pool is created
  anew. Process 10 puts 7: the pool stays. Process 11 puts 7 while another thread holds the
  lock: it waits.
\<close>

theorem put_rebinds_worker_witness:
  "constructed (first_queue 10 :: nat sq_state)
   \<and> sq_lock (first_queue 10 :: nat sq_state) = Some False
   \<and> Some 11 \<noteq> sq_thread_pool_pid (first_queue 10 :: nat sq_state)
   \<and> put 11 0 (7::nat) (first_queue 10) =
       (\<lparr> sq_lock = Some False, sq_thread_pool = Some [(0, 7)], sq_thread_pool_pid = Some 11,
          sq_q = (\<lambda>_. []),
          sq_log = [LockAcquired, PoolCreated 10, LockReleased,
                    LockAcquired, PoolCreated 11, LockReleased, Dispatched 0] \<rparr>, Return ())
   \<and> Some 10 = sq_thread_pool_pid (first_queue 10 :: nat sq_state)
   \<and> (\<exists>st'. put 10 0 (7::nat) (first_queue 10) = (st', Return ())
         \<and> sq_thread_pool st' = Some [(0, 7)]
         \<and> sq_log st' = [LockAcquired, PoolCreated 10, LockReleased, Dispatched 0])
   \<and> constructed ((first_queue 10 :: nat sq_state)\<lparr> sq_lock := Some True \<rparr>)
   \<and> snd (put 11 0 (7::nat) ((first_queue 10)\<lparr> sq_lock := Some True \<rparr>)) = Block
   \<and> Some 11 \<noteq> sq_thread_pool_pid ((first_queue 10 :: nat sq_state)\<lparr> sq_lock := Some True \<rparr>)"
proof -
  let ?held = "(first_queue 10 :: nat sq_state)\<lparr> sq_lock := Some True \<rparr>"
  have c: "constructed (first_queue 10 :: nat sq_state)"
    by (rule quiescent_constructed [OF quiescent_first_queue])
  have l: "sq_lock (first_queue 10 :: nat sq_state) = Some False"
    by (simp add: first_queue_eq)
  have d: "Some 11 \<noteq> sq_thread_pool_pid (first_queue 10 :: nat sq_state)"
    by (simp add: first_queue_eq)
  have s: "Some 10 = sq_thread_pool_pid (first_queue 10 :: nat sq_state)"
    by (simp add: first_queue_eq)
  from put_rebinds_worker [where st = "first_queue 10 :: nat sq_state" and pid = 11 and self = 0
      and obj = 7] c l d
  obtain st' where p: "put 11 0 (7::nat) (first_queue 10) = (st', Return ())"
    and f: "sq_thread_pool_pid st' = Some 11" "sq_lock st' = Some False"
      "sq_q st' = sq_q (first_queue 10)"
    and g: "sq_thread_pool st' = Some [(0, 7)]"
      "sq_log st' = sq_log (first_queue 10 :: nat sq_state)
                  @ [LockAcquired, PoolCreated 11, LockReleased, Dispatched 0]"
    by blast
  have "st' = \<lparr> sq_lock = Some False, sq_thread_pool = Some [(0, 7)], sq_thread_pool_pid = Some 11,
          sq_q = (\<lambda>_. []),
          sq_log = [LockAcquired, PoolCreated 10, LockReleased,
                    LockAcquired, PoolCreated 11, LockReleased, Dispatched 0] \<rparr>"
    using f g by (cases st') (simp add: first_queue_eq)
  with p have 1: "put 11 0 (7::nat) (first_queue 10) =
       (\<lparr> sq_lock = Some False, sq_thread_pool = Some [(0, 7)], sq_thread_pool_pid = Some 11,
          sq_q = (\<lambda>_. []),
          sq_log = [LockAcquired, PoolCreated 10, LockReleased,
                    LockAcquired, PoolCreated 11, LockReleased, Dispatched 0] \<rparr>, Return ())"
    by simp
  from put_rebinds_worker [where st = "first_queue 10 :: nat sq_state" and pid = 10 and self = 0
      and obj = 7] c l s
  obtain st'' where q: "put 10 0 (7::nat) (first_queue 10) = (st'', Return ())"
    and h: "sq_thread_pool st'' = Some (pending (first_queue 10) @ [(0, 7)])"
      "sq_log st'' = sq_log (first_queue 10 :: nat sq_state) @ [Dispatched 0]"
    by blast
  from q h have 2: "\<exists>st'. put 10 0 (7::nat) (first_queue 10) = (st', Return ())
         \<and> sq_thread_pool st' = Some [(0, 7)]
         \<and> sq_log st' = [LockAcquired, PoolCreated 10, LockReleased, Dispatched 0]"
    by (simp add: first_queue_eq pending_def)
  have ch: "constructed ?held"
    by (simp add: constructed_def first_queue_eq)
  have b: "snd (put 11 0 (7::nat) ?held) = Block"
    by (simp add: put_def with_lock_def first_queue_eq)
  from put_rebinds_worker [where st = ?held and pid = 11 and self = 0 and obj = 7] ch b
  have 3: "Some 11 \<noteq> sq_thread_pool_pid ?held"
    by blast
  from c l d 1 s 2 ch b 3 show ?thesis
    by (intro conjI)
qed

text \<open>
  \<open>quiescent\<close> holds once the first queue is built and is kept by every operation of a
  single thread.
\<close>

lemma quiescent_put: "quiescent st \<Longrightarrow> quiescent (fst (put pid self obj st))"
  using put_quiescent [of st pid self obj]
  by (cases "Some pid = sq_thread_pool_pid st") (auto simp: quiescent_def)

lemma quiescent_init: "quiescent st \<Longrightarrow> quiescent (fst (SafeQueue_init pid self st))"
  by (auto simp: quiescent_def SafeQueue_init_def Let_def)

lemma quiescent_worker_step: "quiescent st \<Longrightarrow> quiescent (worker_step can_pickle pid st)"
  by (auto simp: quiescent_def worker_step_def split: option.splits list.splits)

lemma quiescent_get_waiting:
  "quiescent st \<Longrightarrow> quiescent (fst (get_waiting n can_pickle pid self st))"
proof (induction n arbitrary: st)
  case 0
  then show ?case by (cases "sq_q st self") (simp_all add: quiescent_def)
next
  case (Suc n)
  show ?case
  proof (cases "sq_q st self")
    case Nil
    with Suc.IH [OF quiescent_worker_step [OF Suc.prems, of can_pickle pid]] show ?thesis by simp
  next
    case (Cons x xs)
    with Suc.prems show ?thesis by (simp add: quiescent_def)
  qed
qed















end
